theory Spec2Isabelle
  imports Main "HOL-Library.AList"
begin

section \<open>Values the program handles\<close>

text \<open>
  The script \<^verbatim>\<open>information_access.py\<close> has three fetchers. Each one issues an HTTP GET,
  decodes the body with a library, prints a sample on the console and (for XML and CSV)
  goes through a file of a fixed name in the working directory. The libraries
  (\<^verbatim>\<open>requests\<close>, \<^verbatim>\<open>xml.etree.ElementTree\<close>, \<^verbatim>\<open>pandas\<close>, \<^verbatim>\<open>os\<close>) are not part of the
  script: what they answer is a parameter of the model (the record \<open>env\<close> below), and
  every theorem holds for every such answer.
\<close>

text \<open>
  Exceptions, by their class; \<open>message e\<close> is \<^verbatim>\<open>str(e)\<close>. All the classes derive from
  \<^verbatim>\<open>Exception\<close>, the class the three handlers name, but \<^verbatim>\<open>KeyboardInterrupt\<close> and
  \<^verbatim>\<open>SystemExit\<close>, which derive from \<^verbatim>\<open>BaseException\<close> only.
\<close>

datatype exn_kind =
  RequestException | HTTPError | JSONDecodeError | ParseError | EmptyDataError
  | OSError | TypeError | KeyError | UnicodeEncodeError | OtherException
  | KeyboardInterrupt | SystemExit

datatype exn = Exn (kind: exn_kind) (message: string)

text \<open>\<^verbatim>\<open>isinstance(e, Exception)\<close>\<close>

fun exception_class :: "exn_kind \<Rightarrow> bool" where
  "exception_class KeyboardInterrupt = False"
| "exception_class SystemExit = False"
| "exception_class k = True"

definition is_Exception :: "exn \<Rightarrow> bool" where
  "is_Exception e = exception_class (kind e)"

text \<open>
  The characters of a Python str. \<^verbatim>\<open>json\<close> decodes the escape of a lone surrogate
  (U+D800 to U+DFFF) to a character that no text written to stdout may hold; every
  other character is a \<open>char\<close>. ElementTree and pandas decode their input strictly
  and never yield a surrogate, and the messages of the script have none, so those
  texts are \<open>string\<close>s.
\<close>

datatype pychar = Chr char | Surrogate nat

type_synonym pystr = "pychar list"

definition pystr :: "string \<Rightarrow> pystr" where
  "pystr s = map Chr s"

text \<open>
  What stdout does with a str (UTF-8, the default of Python 3): the text that reaches
  the console, or the \<^verbatim>\<open>UnicodeEncodeError\<close> raised at a lone surrogate, before
  anything is written. (The message of the interpreter also names the codec, the
  character and its position.)
\<close>

fun encode :: "pystr \<Rightarrow> exn + string" where
  "encode [] = Inr []"
| "encode (Chr c # s) = (case encode s of Inl e \<Rightarrow> Inl e | Inr t \<Rightarrow> Inr (c # t))"
| "encode (Surrogate n # s) =
     Inl (Exn UnicodeEncodeError ''codec cannot encode character: surrogates not allowed'')"

text \<open>
  A decoded JSON document, as \<^verbatim>\<open>response.json()\<close> returns it: \<^verbatim>\<open>None\<close>, a bool, an int,
  a float, a str, a list or a dict. A float is kept as its literal (the script never
  computes with one); a dict is the list of its items in insertion order, with distinct
  keys, which are strs.
\<close>

datatype json =
  JNull | JBool bool | JInt int | JFloat string | JString pystr
  | JArray "json list" | JObject "(pystr \<times> json) list"

text \<open>
  An element of the parsed XML tree: its tag (\<^verbatim>\<open>{uri}local\<close> when it is in a namespace),
  its text (\<^verbatim>\<open>None\<close> when it has none) and its child elements in document order.
  Attributes and tails are never read by the script.
\<close>

datatype xml = Element (tag: string) (elem_text: "string option") (children: "xml list")

text \<open>A pandas frame: its column names and its rows of cells.\<close>

datatype frame = Frame (columns: "string list") (rows: "string list list")

record response =
  status_code :: nat
  content :: string

text \<open>The world a fetcher acts on: the files of the working directory and the console,
  one entry per call of \<^verbatim>\<open>print\<close>.\<close>

record world =
  files :: "string \<rightharpoonup> string"
  console :: "string list"

text \<open>
  The answers of the libraries. \<open>requests_get\<close> is \<^verbatim>\<open>requests.get(url)\<close>, which raises
  or returns a response; \<open>raise_for_status\<close> is the exception that method raises for a
  response, if any; \<open>response_json\<close> is \<^verbatim>\<open>response.json()\<close>; \<open>py_str\<close> is \<^verbatim>\<open>str\<close> on a
  decoded value that is not itself a str (the repr of a list or a dict, which escapes
  every surrogate; the digits of a number). \<open>open_error\<close> and \<open>os_remove_error\<close> say whether \<^verbatim>\<open>open(name, 'wb')\<close>
  and \<^verbatim>\<open>os.remove(name)\<close> fail for a reason of the operating system (permissions, a full
  disk); \<open>ET_parse\<close> and \<open>pd_read_csv\<close> decode the bytes of a file; \<open>to_string\<close>,
  \<open>numeric_columns\<close> and \<open>describe\<close> are the rendering of a frame, the names of its
  numeric columns and the rendered statistics of one column.
\<close>

record env =
  requests_get :: "string \<Rightarrow> exn + response"
  raise_for_status :: "response \<Rightarrow> exn option"
  response_json :: "response \<Rightarrow> exn + json"
  py_str :: "json \<Rightarrow> string"
  open_error :: "string \<Rightarrow> exn option"
  os_remove_error :: "string \<Rightarrow> exn option"
  ET_parse :: "string \<Rightarrow> exn + xml"
  pd_read_csv :: "string \<Rightarrow> exn + frame"
  to_string :: "frame \<Rightarrow> exn + string"
  numeric_columns :: "frame \<Rightarrow> string list"
  describe :: "frame \<Rightarrow> string \<Rightarrow> exn + string"

section \<open>Statements that may raise\<close>

text \<open>A statement runs in a world and either raises or returns a value; the world it
  leaves is kept in both cases, since what was printed or written before a raise stays.\<close>

type_synonym 'a io = "world \<Rightarrow> (exn + 'a) \<times> world"

definition ret :: "'a \<Rightarrow> 'a io" where
  "ret x w = (Inr x, w)"

definition lift :: "exn + 'a \<Rightarrow> 'a io" where
  "lift r w = (r, w)"

definition check :: "exn option \<Rightarrow> unit io" where
  "check r w = (case r of None \<Rightarrow> (Inr (), w) | Some e \<Rightarrow> (Inl e, w))"

definition bindE :: "'a io \<Rightarrow> ('a \<Rightarrow> 'b io) \<Rightarrow> 'b io" where
  "bindE m k w = (case m w of (Inl e, w') \<Rightarrow> (Inl e, w') | (Inr x, w') \<Rightarrow> k x w')"

text \<open>\<^verbatim>\<open>print(s)\<close>: stdout encodes the str, which raises or adds one entry to the
  console. \<open>print_line\<close> is \<^verbatim>\<open>print\<close> of a text without surrogates, which
  cannot raise. Stdout is taken to be open: a write to it never fails.\<close>

definition print_str :: "pystr \<Rightarrow> unit io" where
  "print_str s w =
     (case encode s of
        Inl e \<Rightarrow> (Inl e, w)
      | Inr t \<Rightarrow> (Inr (), w\<lparr>console := console w @ [t]\<rparr>))"

definition print_line :: "string \<Rightarrow> unit io" where
  "print_line s = print_str (pystr s)"

text \<open>A \<^verbatim>\<open>for\<close> loop over a list: the body runs on each element in turn and the loop
  stops at the first raise.\<close>

primrec for_each :: "'a list \<Rightarrow> ('a \<Rightarrow> unit io) \<Rightarrow> unit io" where
  "for_each [] body = ret ()"
| "for_each (x # xs) body = bindE (body x) (\<lambda>_. for_each xs body)"

text \<open>
  \<^verbatim>\<open>try: ... except Exception as e: print(f"<prefix>{e}"); return None\<close>. The call of a
  fetcher has three outcomes: it returns the value of the body (\<open>Inr (Some x)\<close>), it
  returns \<^verbatim>\<open>None\<close> after the handler has printed (\<open>Inr None\<close>), or an exception that
  is not an instance of \<^verbatim>\<open>Exception\<close> passes the handler and reaches the caller
  (\<open>Inl e\<close>).
\<close>

definition try_except :: "string \<Rightarrow> 'a io \<Rightarrow> world \<Rightarrow> (exn + 'a option) \<times> world" where
  "try_except prefix body w =
     (case body w of
        (Inr x, w') \<Rightarrow> (Inr (Some x), w')
      | (Inl e, w') \<Rightarrow>
          (if is_Exception e
           then (Inr None, w'\<lparr>console := console w' @ [prefix @ message e]\<rparr>)
           else (Inl e, w')))"

section \<open>Python built-ins the script uses\<close>

definition newline :: string where
  "newline = [CHR 0x0A]"

definition digit_char :: "nat \<Rightarrow> char" where
  "digit_char d = ''0123456789'' ! d"

text \<open>\<^verbatim>\<open>str(n)\<close> for a natural number: its decimal digits.\<close>

function str_nat :: "nat \<Rightarrow> string" where
  "str_nat n = (if n < 10 then [digit_char n] else str_nat (n div 10) @ [digit_char (n mod 10)])"
  by pat_completeness auto
termination
  by (relation "measure id") auto

declare str_nat.simps [simp del]

text \<open>The name of a value's type, as it appears in a \<^verbatim>\<open>TypeError\<close>.\<close>

fun type_name :: "json \<Rightarrow> string" where
  "type_name JNull = ''NoneType''"
| "type_name (JBool _) = ''bool''"
| "type_name (JInt _) = ''int''"
| "type_name (JFloat _) = ''float''"
| "type_name (JString _) = ''str''"
| "type_name (JArray _) = ''list''"
| "type_name (JObject _) = ''dict''"

text \<open>\<^verbatim>\<open>sub in s\<close> on strings: \<open>sub\<close> occurs in \<open>s\<close> as a contiguous run.\<close>

primrec is_substring :: "'a list \<Rightarrow> 'a list \<Rightarrow> bool" where
  "is_substring sub [] = (sub = [])"
| "is_substring sub (c # cs) = (take (length sub) (c # cs) = sub \<or> is_substring sub cs)"

text \<open>
  \<^verbatim>\<open>key in data\<close>: a key of a dict, an element of a list, a substring of a str; the
  other values are not containers and the test raises \<^verbatim>\<open>TypeError\<close>.
\<close>

fun py_contains :: "string \<Rightarrow> json \<Rightarrow> exn + bool" where
  "py_contains key (JObject kvs) = Inr (pystr key \<in> set (map fst kvs))"
| "py_contains key (JArray xs) = Inr (JString (pystr key) \<in> set xs)"
| "py_contains key (JString s) = Inr (is_substring (pystr key) s)"
| "py_contains key v =
     Inl (Exn TypeError (''argument of type '' @ [CHR 0x27] @ type_name v @ [CHR 0x27] @ '' is not iterable''))"

text \<open>\<^verbatim>\<open>data[key]\<close> with a string key: the value of a dict (\<^verbatim>\<open>KeyError\<close>, a kind of
  \<^verbatim>\<open>Exception\<close>, when the key is absent); a list or a str takes integer indices only.\<close>

fun py_getitem :: "json \<Rightarrow> string \<Rightarrow> exn + json" where
  "py_getitem (JObject kvs) key =
     (case map_of kvs (pystr key) of
        Some v \<Rightarrow> Inr v
      | None \<Rightarrow> Inl (Exn KeyError ([CHR 0x27] @ key @ [CHR 0x27])))"
| "py_getitem (JArray xs) key =
     Inl (Exn TypeError ''list indices must be integers or slices, not str'')"
| "py_getitem (JString s) key = Inl (Exn TypeError ''string indices must be integers'')"
| "py_getitem v key =
     Inl (Exn TypeError ([CHR 0x27] @ type_name v @ [CHR 0x27] @ '' object is not subscriptable''))"

fun is_list :: "json \<Rightarrow> bool" where
  "is_list (JArray xs) = True"
| "is_list v = False"

fun list_items :: "json \<Rightarrow> json list" where
  "list_items (JArray xs) = xs"
| "list_items v = []"

text \<open>
  What iterating over a value yields (\<^verbatim>\<open>enumerate(record)\<close>): the elements of a list,
  the characters of a str, the keys of a dict; the other values raise \<^verbatim>\<open>TypeError\<close>.
\<close>

fun py_iter :: "json \<Rightarrow> exn + json list" where
  "py_iter (JArray xs) = Inr xs"
| "py_iter (JString s) = Inr (map (\<lambda>c. JString [c]) s)"
| "py_iter (JObject kvs) = Inr (map (\<lambda>kv. JString (fst kv)) kvs)"
| "py_iter v =
     Inl (Exn TypeError ([CHR 0x27] @ type_name v @ [CHR 0x27] @ '' object is not iterable''))"

section \<open>access_json_api\<close>

definition api_url :: string where
  "api_url = ''https://data.wa.gov/api/views/f6w7-q2d2/rows.json?accessType=DOWNLOAD''"

text \<open>The test of line 50, with the short circuit of \<^verbatim>\<open>and\<close>:
  \<^verbatim>\<open>"data" in data and isinstance(data["data"], list) and len(data["data"]) > 0\<close>\<close>

definition expected_shape :: "json \<Rightarrow> exn + bool" where
  "expected_shape data =
     (case py_contains ''data'' data of
        Inl e \<Rightarrow> Inl e
      | Inr False \<Rightarrow> Inr False
      | Inr True \<Rightarrow>
          (case py_getitem data ''data'' of
             Inl e \<Rightarrow> Inl e
           | Inr v \<Rightarrow> Inr (is_list v \<and> 0 < length (list_items v))))"

text \<open>\<^verbatim>\<open>str(value)\<close>, as it stands in an f-string: a str is its own text, surrogates
  included; the other values are rendered by \<open>py_str\<close>.\<close>

fun str_value :: "env \<Rightarrow> json \<Rightarrow> pystr" where
  "str_value env (JString s) = s"
| "str_value env v = pystr (py_str env v)"

text \<open>The inner loop, lines 60 to 62: every field is visited, the first five are printed.\<close>

definition print_fields :: "env \<Rightarrow> json list \<Rightarrow> unit io" where
  "print_fields env fs =
     for_each (enumerate 0 fs)
       (\<lambda>(j, v). if j < 5
                 then print_str (pystr (''  Field '' @ str_nat j @ '': '') @ str_value env v)
                 else ret ())"

text \<open>The body of the loop of line 55 for one index \<open>i\<close>.\<close>

definition print_one_record :: "env \<Rightarrow> json list \<Rightarrow> nat \<Rightarrow> unit io" where
  "print_one_record env recs i =
     bindE (print_line (newline @ ''Record #'' @ str_nat (i + 1) @ '':'')) (\<lambda>_.
     bindE (lift (py_iter (recs ! i))) (\<lambda>fs.
     print_fields env fs))"

text \<open>\<^verbatim>\<open>str(data)[:500] + "..." if len(str(data)) > 500 else str(data)\<close>\<close>

definition preview :: "pystr \<Rightarrow> pystr" where
  "preview s = (if 500 < length s then take 500 s @ pystr ''...'' else s)"

text \<open>Lines 46 to 68, what the body does with the decoded document.\<close>

definition json_report :: "env \<Rightarrow> json \<Rightarrow> json io" where
  "json_report env data =
     bindE (print_line (newline @ ''JSON API Access Sample:'')) (\<lambda>_.
     bindE (lift (expected_shape data)) (\<lambda>ok.
     if ok then
       bindE (lift (py_getitem data ''data'')) (\<lambda>d.
       bindE (print_line (''Total records: '' @ str_nat (length (list_items d)))) (\<lambda>_.
       bindE (for_each [0..<min 3 (length (list_items d))] (print_one_record env (list_items d))) (\<lambda>_.
       ret data)))
     else
       bindE (print_line ''JSON data structure is different than expected. Sample output:'') (\<lambda>_.
       bindE (print_str (preview (str_value env data))) (\<lambda>_.
       ret data))))"

text \<open>Lines 37 to 68, the body of the \<^verbatim>\<open>try\<close>.\<close>

definition json_body :: "env \<Rightarrow> json io" where
  "json_body env =
     bindE (print_line (''Accessing JSON data from API: '' @ api_url)) (\<lambda>_.
     bindE (lift (requests_get env api_url)) (\<lambda>response.
     bindE (check (raise_for_status env response)) (\<lambda>_.
     bindE (lift (response_json env response)) (\<lambda>data.
     json_report env data))))"

definition access_json_api :: "env \<Rightarrow> world \<Rightarrow> (exn + json option) \<times> world" where
  "access_json_api env = try_except ''Error accessing JSON API: '' (json_body env)"

section \<open>Files\<close>

text \<open>
  \<^verbatim>\<open>with open(name, 'wb') as f: f.write(data)\<close>: the file is created, or truncated
  when it exists, and holds exactly \<open>data\<close> afterwards. When \<^verbatim>\<open>open\<close> fails the
  directory is as before.
\<close>

definition write_file :: "env \<Rightarrow> string \<Rightarrow> string \<Rightarrow> unit io" where
  "write_file env name data w =
     (case open_error env name of
        Some e \<Rightarrow> (Inl e, w)
      | None \<Rightarrow> (Inr (), w\<lparr>files := (files w)(name \<mapsto> data)\<rparr>))"

text \<open>\<^verbatim>\<open>ET.parse(name)\<close> and \<^verbatim>\<open>pd.read_csv(name)\<close> read the file and decode its bytes.\<close>

definition parse_file :: "(string \<Rightarrow> exn + 'a) \<Rightarrow> string \<Rightarrow> 'a io" where
  "parse_file parser name w =
     (case files w name of
        None \<Rightarrow> (Inl (Exn OSError (''No such file or directory: '' @ name)), w)
      | Some data \<Rightarrow> (parser data, w))"

definition path_exists :: "string \<Rightarrow> world \<Rightarrow> bool" where
  "path_exists name w = (files w name \<noteq> None)"

definition os_remove :: "env \<Rightarrow> string \<Rightarrow> unit io" where
  "os_remove env name w =
     (case files w name of
        None \<Rightarrow> (Inl (Exn OSError (''No such file or directory: '' @ name)), w)
      | Some data \<Rightarrow>
          (case os_remove_error env name of
             Some e \<Rightarrow> (Inl e, w)
           | None \<Rightarrow> (Inr (), w\<lparr>files := (files w)(name := None)\<rparr>)))"

text \<open>Lines 138 to 140 and 205 to 207:
  \<^verbatim>\<open>if os.path.exists(temp_file): os.remove(temp_file); print(...)\<close>\<close>

definition cleanup :: "env \<Rightarrow> string \<Rightarrow> unit io" where
  "cleanup env name w =
     (if path_exists name w
      then bindE (os_remove env name)
             (\<lambda>_. print_line (''Temporary file '' @ name @ '' removed'')) w
      else ret () w)"

section \<open>download_and_read_xml\<close>

definition xml_url :: string where
  "xml_url = ''https://data.wa.gov/api/views/f6w7-q2d2/rows.xml?accessType=DOWNLOAD''"

definition xml_temp_file :: string where
  "xml_temp_file = ''electric_vehicle_data.xml''"

text \<open>The proper descendants of an element, in document order (what \<^verbatim>\<open>.//\<close> walks).\<close>

fun descendants :: "xml \<Rightarrow> xml list" where
  "descendants (Element t x cs) = concat (map (\<lambda>c. c # descendants c) cs)"

text \<open>\<^verbatim>\<open>root.findall('.//row')\<close>: the descendants whose tag is exactly \<^verbatim>\<open>row\<close>.\<close>

definition findall_row :: "xml \<Rightarrow> xml list" where
  "findall_row root = filter (\<lambda>e. tag e = ''row'') (descendants root)"

text \<open>\<^verbatim>\<open>s.split(c)\<close> for a one-character separator: never an empty list.\<close>

fun split_on :: "char \<Rightarrow> string \<Rightarrow> string list" where
  "split_on c [] = [[]]"
| "split_on c (x # xs) =
     (if x = c then [] # split_on c xs
      else (case split_on c xs of [] \<Rightarrow> [[x]] | p # ps \<Rightarrow> (x # p) # ps))"

text \<open>Line 129: \<^verbatim>\<open>child.tag.split('}')[-1] if '}' in child.tag else child.tag\<close>\<close>

definition strip_namespace :: "string \<Rightarrow> string" where
  "strip_namespace t = (if CHR ''}'' \<in> set t then last (split_on (CHR ''}'') t) else t)"

text \<open>What an f-string prints for \<^verbatim>\<open>child.text\<close>, which may be \<^verbatim>\<open>None\<close>.\<close>

fun str_opt :: "string option \<Rightarrow> string" where
  "str_opt None = ''None''"
| "str_opt (Some s) = s"

text \<open>
  A Python dict from tags to texts, as the list of its items in insertion order:
  \<^verbatim>\<open>d[k] = v\<close> replaces the value of a key already there and appends a new key at the
  end, which is \<open>AList.update\<close>.
\<close>

type_synonym sample_record = "(string \<times> string option) list"

text \<open>The loop of lines 127 to 133 over the children of one row, with the dict and
  \<^verbatim>\<open>field_count\<close> it updates.\<close>

primrec collect_fields :: "xml list \<Rightarrow> sample_record \<Rightarrow> nat \<Rightarrow> sample_record io" where
  "collect_fields [] rec_dict field_count = ret rec_dict"
| "collect_fields (child # rest) rec_dict field_count =
     (let tg = strip_namespace (tag child) in
      if field_count < 5 then
        bindE (print_line (''  '' @ tg @ '': '' @ str_opt (elem_text child))) (\<lambda>_.
        collect_fields rest (AList.update tg (elem_text child) rec_dict) (field_count + 1))
      else collect_fields rest rec_dict field_count)"

text \<open>The loop of lines 121 to 135 over \<^verbatim>\<open>enumerate(rows[:3])\<close>.\<close>

primrec sample_rows :: "(nat \<times> xml) list \<Rightarrow> sample_record list \<Rightarrow> sample_record list io" where
  "sample_rows [] sample_records = ret sample_records"
| "sample_rows (p # rest) sample_records =
     bindE (print_line (newline @ ''Record #'' @ str_nat (fst p + 1) @ '':'')) (\<lambda>_.
     bindE (collect_fields (children (snd p)) [] 0) (\<lambda>rec_dict.
     sample_rows rest (sample_records @ [rec_dict])))"

definition xml_body :: "env \<Rightarrow> sample_record list io" where
  "xml_body env =
     bindE (print_line (''Downloading XML file from: '' @ xml_url)) (\<lambda>_.
     bindE (lift (requests_get env xml_url)) (\<lambda>response.
     bindE (check (raise_for_status env response)) (\<lambda>_.
     bindE (write_file env xml_temp_file (content response)) (\<lambda>_.
     bindE (print_line (''File downloaded to: '' @ xml_temp_file)) (\<lambda>_.
     bindE (parse_file (ET_parse env) xml_temp_file) (\<lambda>root.
     bindE (print_line (''Found '' @ str_nat (length (findall_row root)) @ '' records in XML file'')) (\<lambda>_.
     bindE (print_line (newline @ ''XML File Access Sample:'')) (\<lambda>_.
     bindE (sample_rows (enumerate 0 (take 3 (findall_row root))) []) (\<lambda>sample_records.
     bindE (cleanup env xml_temp_file) (\<lambda>_.
     ret sample_records))))))))))"

definition download_and_read_xml ::
  "env \<Rightarrow> world \<Rightarrow> (exn + sample_record list option) \<times> world" where
  "download_and_read_xml env = try_except ''Error downloading and reading XML: '' (xml_body env)"

section \<open>access_csv_with_pandas\<close>

definition csv_url :: string where
  "csv_url = ''https://data.wa.gov/api/views/f6w7-q2d2/rows.csv?accessType=DOWNLOAD''"

definition csv_temp_file :: string where
  "csv_temp_file = ''electric_vehicle_data.csv''"

text \<open>\<^verbatim>\<open>sep.join(xs)\<close>\<close>

fun str_join :: "string \<Rightarrow> string list \<Rightarrow> string" where
  "str_join sep [] = []"
| "str_join sep [x] = x"
| "str_join sep (x # y # ys) = x @ sep @ str_join sep (y # ys)"

text \<open>\<^verbatim>\<open>str(df.shape)\<close>, the pair of the row count and the column count.\<close>

definition shape_str :: "frame \<Rightarrow> string" where
  "shape_str df =
     ''('' @ str_nat (length (rows df)) @ '', '' @ str_nat (length (columns df)) @ '')''"

definition head :: "nat \<Rightarrow> frame \<Rightarrow> frame" where
  "head n df = Frame (columns df) (take n (rows df))"

text \<open>Lines 200 to 202: the statistics of the first numeric column, when there is one.\<close>

definition print_statistics :: "env \<Rightarrow> frame \<Rightarrow> unit io" where
  "print_statistics env df =
     (if 0 < length (numeric_columns env df)
      then bindE (lift (describe env df (numeric_columns env df ! 0))) print_line
      else ret ())"

definition csv_body :: "env \<Rightarrow> frame io" where
  "csv_body env =
     bindE (print_line (''Downloading CSV file from: '' @ csv_url)) (\<lambda>_.
     bindE (lift (requests_get env csv_url)) (\<lambda>response.
     bindE (check (raise_for_status env response)) (\<lambda>_.
     bindE (write_file env csv_temp_file (content response)) (\<lambda>_.
     bindE (print_line (''File downloaded to: '' @ csv_temp_file)) (\<lambda>_.
     bindE (parse_file (pd_read_csv env) csv_temp_file) (\<lambda>df.
     bindE (print_line (newline @ ''CSV Pandas Access Sample:'')) (\<lambda>_.
     bindE (print_line (''Data dimensions: '' @ shape_str df @ '' (rows, columns)'')) (\<lambda>_.
     bindE (print_line (''Columns: '' @ str_join '', '' (take 5 (columns df)) @ ''...'')) (\<lambda>_.
     bindE (print_line (newline @ ''First 3 records:'')) (\<lambda>_.
     bindE (lift (to_string env (head 3 df))) (\<lambda>s.
     bindE (print_line s) (\<lambda>_.
     bindE (print_line (newline @ ''Basic statistics (first numeric column):'')) (\<lambda>_.
     bindE (print_statistics env df) (\<lambda>_.
     bindE (cleanup env csv_temp_file) (\<lambda>_.
     ret df)))))))))))))))"

definition access_csv_with_pandas :: "env \<Rightarrow> world \<Rightarrow> (exn + frame option) \<times> world" where
  "access_csv_with_pandas env = try_except ''Error accessing CSV with pandas: '' (csv_body env)"

section \<open>What the samples are\<close>

text \<open>The fields iterating over a record yields; none for a value that cannot be
  iterated over.\<close>

definition iter_items :: "json \<Rightarrow> json list" where
  "iter_items v = (case py_iter v of Inr fs \<Rightarrow> fs | Inl e \<Rightarrow> [])"

definition iterable :: "json \<Rightarrow> bool" where
  "iterable v = (case py_iter v of Inr fs \<Rightarrow> True | Inl e \<Rightarrow> False)"

text \<open>The JSON sample: the first three records, each as its first five fields paired
  with their positions.\<close>

definition json_sample :: "json list \<Rightarrow> (nat \<times> json) list list" where
  "json_sample recs = map (\<lambda>r. enumerate 0 (take 5 (iter_items r))) (take 3 recs)"

text \<open>A field stdout can print: any value but a str that holds a lone surrogate.\<close>

definition printable :: "env \<Rightarrow> json \<Rightarrow> bool" where
  "printable env v = (case encode (str_value env v) of Inr t \<Rightarrow> True | Inl e \<Rightarrow> False)"

text \<open>The text of a printable field on the console.\<close>

definition field_text :: "env \<Rightarrow> json \<Rightarrow> string" where
  "field_text env v = (case encode (str_value env v) of Inr t \<Rightarrow> t | Inl e \<Rightarrow> [])"

definition field_line :: "env \<Rightarrow> nat \<times> json \<Rightarrow> string" where
  "field_line env p = ''  Field '' @ str_nat (fst p) @ '': '' @ field_text env (snd p)"

definition record_header :: "nat \<Rightarrow> string" where
  "record_header i = newline @ ''Record #'' @ str_nat (i + 1) @ '':''"

text \<open>The lines printed for the record at position \<open>i\<close> of the sample.\<close>

definition record_lines :: "env \<Rightarrow> nat \<times> (nat \<times> json) list \<Rightarrow> string list" where
  "record_lines env p = record_header (fst p) # map (field_line env) (snd p)"

text \<open>The XML sample record of a row: the dict built from its first five children.\<close>

definition first_five_record :: "xml \<Rightarrow> sample_record" where
  "first_five_record row =
     fold (\<lambda>c d. AList.update (strip_namespace (tag c)) (elem_text c) d)
       (take 5 (children row)) []"

definition child_line :: "xml \<Rightarrow> string" where
  "child_line c = ''  '' @ strip_namespace (tag c) @ '': '' @ str_opt (elem_text c)"

definition row_lines :: "nat \<times> xml \<Rightarrow> string list" where
  "row_lines p = record_header (fst p) # map child_line (take 5 (children (snd p)))"

text \<open>Everything \<^verbatim>\<open>download_and_read_xml\<close> prints before the cleanup, for a parsed root.\<close>

definition xml_report :: "xml \<Rightarrow> string list" where
  "xml_report root =
     [''Downloading XML file from: '' @ xml_url,
      ''File downloaded to: '' @ xml_temp_file,
      ''Found '' @ str_nat (length (findall_row root)) @ '' records in XML file'',
      newline @ ''XML File Access Sample:'']
     @ concat (map row_lines (enumerate 0 (take 3 (findall_row root))))"

text \<open>What \<^verbatim>\<open>access_csv_with_pandas\<close> prints up to the heading of the first rows, for a
  loaded frame.\<close>

definition csv_preamble :: "frame \<Rightarrow> string list" where
  "csv_preamble df =
     [''Downloading CSV file from: '' @ csv_url,
      ''File downloaded to: '' @ csv_temp_file,
      newline @ ''CSV Pandas Access Sample:'',
      ''Data dimensions: '' @ shape_str df @ '' (rows, columns)'',
      ''Columns: '' @ str_join '', '' (take 5 (columns df)) @ ''...'',
      newline @ ''First 3 records:'']"

text \<open>The outcome of lines 200 to 202: the exception \<^verbatim>\<open>describe\<close> raises, if any, and
  the lines printed otherwise.\<close>

definition stats_error :: "env \<Rightarrow> frame \<Rightarrow> exn option" where
  "stats_error env df =
     (case numeric_columns env df of
        [] \<Rightarrow> None
      | c # cs \<Rightarrow> (case describe env df c of Inl e \<Rightarrow> Some e | Inr d \<Rightarrow> None))"

definition stats_lines :: "env \<Rightarrow> frame \<Rightarrow> string list" where
  "stats_lines env df =
     (case numeric_columns env df of
        [] \<Rightarrow> []
      | c # cs \<Rightarrow> (case describe env df c of Inl e \<Rightarrow> [] | Inr d \<Rightarrow> [d]))"


text \<open>The elements below an element, at any depth.\<close>

inductive below :: "xml \<Rightarrow> xml \<Rightarrow> bool" where
  child: "c \<in> set (children r) \<Longrightarrow> below c r"
| deeper: "c \<in> set (children r) \<Longrightarrow> below e c \<Longrightarrow> below e r"

text \<open>The number of elements named \<^verbatim>\<open>row\<close> below an element, counted child by child.\<close>

fun count_rows :: "xml \<Rightarrow> nat" where
  "count_rows (Element t x cs) =
     sum_list (map (\<lambda>c. (if tag c = ''row'' then 1 else 0) + count_rows c) cs)"

text \<open>
  The GET fails: \<^verbatim>\<open>requests.get\<close> raises an error, or \<^verbatim>\<open>raise_for_status\<close> does.
  An interrupt of the user during the call is not a failure of the GET.
\<close>

definition get_fails :: "env \<Rightarrow> string \<Rightarrow> bool" where
  "get_fails env url =
     (case requests_get env url of
        Inl e \<Rightarrow> is_Exception e
      | Inr r \<Rightarrow> (case raise_for_status env r of Some e \<Rightarrow> is_Exception e | None \<Rightarrow> False))"

text \<open>
  Modelled from the library: \<^verbatim>\<open>Response.raise_for_status\<close> of \<^verbatim>\<open>requests\<close>, which is not
  part of the script. It raises \<^verbatim>\<open>HTTPError\<close> for the status codes 400 to 599 and
  nothing for any other code. (The message of the library also names the reason phrase
  and the URL.)
\<close>

definition requests_raise_for_status :: "response \<Rightarrow> exn option" where
  "requests_raise_for_status r =
     (if 400 \<le> status_code r \<and> status_code r < 600
      then Some (Exn HTTPError
             (str_nat (status_code r)
              @ (if status_code r < 500 then '' Client Error'' else '' Server Error'')))
      else None)"




section \<open>A test environment\<close>

text \<open>
  Stand-ins for the network and the libraries, to run the fetchers on explicit inputs.
  The status check is the one of \<^verbatim>\<open>requests\<close>. The decoders know the bodies of the
  scenarios below and reject every other body, with the message the library gives for
  an input that ends too early.
\<close>

fun show_json :: "json \<Rightarrow> string" where
  "show_json JNull = ''None''"
| "show_json (JBool b) = (if b then ''True'' else ''False'')"
| "show_json (JInt i) = (if i < 0 then ''-'' @ str_nat (nat (- i)) else str_nat (nat i))"
| "show_json (JFloat l) = l"
| "show_json (JString s) =
     (case encode s of Inr t \<Rightarrow> [CHR 0x27] @ t @ [CHR 0x27] | Inl e \<Rightarrow> ''<str>'')"
| "show_json (JArray xs) = ''[...]''"
| "show_json (JObject kvs) = ''{...}''"

definition show_frame :: "frame \<Rightarrow> string" where
  "show_frame df = str_join newline (map (str_join '' '') (columns df # rows df))"

definition empty_world :: world where
  "empty_world = \<lparr> files = Map.empty, console = [] \<rparr>"

definition ok_response :: "string \<Rightarrow> response" where
  "ok_response body = \<lparr> status_code = 200, content = body \<rparr>"

definition not_found :: response where
  "not_found = \<lparr> status_code = 404, content = ''Not Found'' \<rparr>"

text \<open>The end-to-end JSON body of the specification and the document it decodes to.\<close>

definition scenario_json_text :: string where
  \<open>scenario_json_text = ''{"data": [["a","1","x","y","z","extra"],["b","2"]]}''\<close>

definition scenario_doc :: json where
  "scenario_doc =
     JObject [(pystr ''data'',
       JArray [JArray [JString (pystr ''a''), JString (pystr ''1''), JString (pystr ''x''),
                       JString (pystr ''y''), JString (pystr ''z''),
                       JString (pystr ''extra'')],
               JArray [JString (pystr ''b''), JString (pystr ''2'')]])]"

text \<open>A body whose only record is a number.\<close>

definition number_json_text :: string where
  \<open>number_json_text = ''{"data": [1]}''\<close>

definition number_doc :: json where
  "number_doc = JObject [(pystr ''data'', JArray [JInt 1])]"

text \<open>A body whose only field is a str holding the lone surrogate U+D800.\<close>

definition surrogate_json_text :: string where
  \<open>surrogate_json_text = ''{"data": [["'' @ [CHR 0x5C] @ ''ud800"]]}''\<close>

definition surrogate_doc :: json where
  "surrogate_doc = JObject [(pystr ''data'', JArray [JArray [JString [Surrogate 0xD800]]])]"

text \<open>A body with no record.\<close>

definition empty_json_text :: string where
  \<open>empty_json_text = ''{"data": []}''\<close>

definition empty_doc :: json where
  "empty_doc = JObject [(pystr ''data'', JArray [])]"

text \<open>An XML body: one row whose first two children have the same local name, the first
  and the third in a namespace.\<close>

definition scenario_xml_text :: string where
  \<open>scenario_xml_text =
     ''<response><row><e:make xmlns:e='http://example.org/ev'>TESLA</e:make><make>NISSAN</make><e:model xmlns:e='http://example.org/ev'>LEAF</e:model></row></response>''\<close>

definition scenario_row :: xml where
  "scenario_row =
     Element ''row'' None
       [Element ''{http://example.org/ev}make'' (Some ''TESLA'') [],
        Element ''make'' (Some ''NISSAN'') [],
        Element ''{http://example.org/ev}model'' (Some ''LEAF'') []]"

definition scenario_root :: xml where
  "scenario_root = Element ''response'' None [scenario_row]"

text \<open>
  An XML body in the shape of the real export: an outer \<^verbatim>\<open>row\<close> that wraps four rows,
  the first with seven children, the last two empty. Five elements are named \<^verbatim>\<open>row\<close>.
\<close>

definition nested_xml_text :: string where
  \<open>nested_xml_text =
     ''<response><row><row><e:vin xmlns:e='http://example.org/ev'>5YJ3</e:vin><county>King</county><city>Seattle</city><state>WA</state><year>2020</year><make>TESLA</make><model>MODEL 3</model></row><row><vin>1N4A</vin></row><row/><row/></row></response>''\<close>

definition nested_first :: xml where
  "nested_first =
     Element ''row'' None
       [Element ''{http://example.org/ev}vin'' (Some ''5YJ3'') [],
        Element ''county'' (Some ''King'') [],
        Element ''city'' (Some ''Seattle'') [],
        Element ''state'' (Some ''WA'') [],
        Element ''year'' (Some ''2020'') [],
        Element ''make'' (Some ''TESLA'') [],
        Element ''model'' (Some ''MODEL 3'') []]"

definition nested_second :: xml where
  "nested_second = Element ''row'' None [Element ''vin'' (Some ''1N4A'') []]"

definition nested_outer :: xml where
  "nested_outer =
     Element ''row'' None
       [nested_first, nested_second, Element ''row'' None [], Element ''row'' None []]"

definition nested_root :: xml where
  "nested_root = Element ''response'' None [nested_outer]"

text \<open>A CSV body with two columns and one row.\<close>

definition scenario_csv_text :: string where
  "scenario_csv_text = ''VIN,County'' @ newline @ ''5YJ3,King'' @ newline"

definition scenario_frame :: frame where
  "scenario_frame = Frame [''VIN'', ''County''] [[''5YJ3'', ''King'']]"

text \<open>XML that stops inside its first row.\<close>

definition truncated_xml_text :: string where
  "truncated_xml_text = ''<response><row>''"

definition test_json_decode :: "string \<Rightarrow> exn + json" where
  "test_json_decode body =
     (if body = scenario_json_text then Inr scenario_doc
      else if body = number_json_text then Inr number_doc
      else if body = empty_json_text then Inr empty_doc
      else if body = surrogate_json_text then Inr surrogate_doc
      else Inl (Exn JSONDecodeError ''Expecting value: line 1 column 1 (char 0)''))"

definition test_xml_parse :: "string \<Rightarrow> exn + xml" where
  "test_xml_parse body =
     (if body = scenario_xml_text then Inr scenario_root
      else if body = nested_xml_text then Inr nested_root
      else Inl (Exn ParseError
             (''no element found: line 1, column '' @ str_nat (length body))))"

definition test_read_csv :: "string \<Rightarrow> exn + frame" where
  "test_read_csv body =
     (if body = scenario_csv_text then Inr scenario_frame
      else Inl (Exn EmptyDataError ''No columns to parse from file''))"

definition test_env :: "(string \<Rightarrow> exn + response) \<Rightarrow> env" where
  "test_env server =
     \<lparr> requests_get = server,
       raise_for_status = requests_raise_for_status,
       response_json = (\<lambda>resp. test_json_decode (content resp)),
       py_str = show_json,
       open_error = (\<lambda>name. None),
       os_remove_error = (\<lambda>name. None),
       ET_parse = test_xml_parse,
       pd_read_csv = test_read_csv,
       to_string = (\<lambda>df. Inr (show_frame df)),
       numeric_columns = columns,
       describe = (\<lambda>df c. Inr (''count of '' @ c)) \<rparr>"

text \<open>A server that answers every GET with status 200 and the given body.\<close>

definition body_env :: "string \<Rightarrow> env" where
  "body_env body = test_env (\<lambda>url. Inr (ok_response body))"

text \<open>The server of the scenarios: each of the three endpoints answers its body.\<close>

definition good_env :: env where
  "good_env =
     test_env (\<lambda>url.
       if url = api_url then Inr (ok_response scenario_json_text)
       else if url = xml_url then Inr (ok_response scenario_xml_text)
       else if url = csv_url then Inr (ok_response scenario_csv_text)
       else Inr not_found)"

text \<open>A server that answers every GET with status 300 and the XML body of the scenario.\<close>

definition multiple_choices_env :: env where
  "multiple_choices_env =
     test_env (\<lambda>url. Inr \<lparr> status_code = 300, content = scenario_xml_text \<rparr>)"

text \<open>A server that answers every GET with status 304 and no body.\<close>

definition not_modified_env :: env where
  "not_modified_env = test_env (\<lambda>url. Inr \<lparr> status_code = 304, content = [] \<rparr>)"

text \<open>A network that refuses every connection.\<close>

definition unreachable_env :: env where
  "unreachable_env = test_env (\<lambda>url. Inl (Exn RequestException ''Connection refused''))"


text \<open>A server that answers every GET with status 404.\<close>

definition not_found_env :: env where
  "not_found_env = test_env (\<lambda>url. Inr not_found)"

section \<open>Running statements and loops\<close>

lemma encode_pystr: "encode (pystr s) = Inr s"
  by (induction s) (simp_all add: pystr_def)

lemma encode_pystr_append:
  "encode (pystr a @ s) = (case encode s of Inl e \<Rightarrow> Inl e | Inr t \<Rightarrow> Inr (a @ t))"
  by (induction a) (simp_all add: pystr_def split: sum.splits)

lemma print_line_apply: "print_line s w = (Inr (), w\<lparr>console := console w @ [s]\<rparr>)"
  by (simp add: print_line_def print_str_def encode_pystr)

lemma bindE_print_line:
  "bindE (print_line s) k w = k () (w\<lparr>console := console w @ [s]\<rparr>)"
  by (simp add: bindE_def print_line_apply)

lemma bindE_ret: "bindE (ret x) k w = k x w"
  by (simp add: bindE_def ret_def)

lemma bindE_lift_Inr: "bindE (lift (Inr x)) k w = k x w"
  by (simp add: bindE_def lift_def)

lemma bindE_lift_Inl: "bindE (lift (Inl e)) k w = (Inl e, w)"
  by (simp add: bindE_def lift_def)

lemma bindE_check_None: "bindE (check None) k w = k () w"
  by (simp add: bindE_def check_def)

lemma bindE_check_Some: "bindE (check (Some e)) k w = (Inl e, w)"
  by (simp add: bindE_def check_def)

lemma bindE_Inr: "m w = (Inr x, w') \<Longrightarrow> bindE m k w = k x w'"
  by (simp add: bindE_def)

lemma bindE_Inl: "m w = (Inl e, w') \<Longrightarrow> bindE m k w = (Inl e, w')"
  by (simp add: bindE_def)

lemma for_each_prints:
  assumes "\<And>x v. x \<in> set xs \<Longrightarrow> body x v = (Inr (), v\<lparr>console := console v @ g x\<rparr>)"
  shows "for_each xs body w = (Inr (), w\<lparr>console := console w @ concat (map g xs)\<rparr>)"
  using assms
proof (induction xs arbitrary: w)
  case Nil
  then show ?case by (simp add: ret_def)
next
  case (Cons x xs)
  then show ?case by (simp add: bindE_def)
qed

lemma filter_enumerate_lt:
  "filter (\<lambda>(j, v). j < k) (enumerate n xs) = enumerate n (take (k - n) xs)"
proof (induction xs arbitrary: n)
  case Nil
  then show ?case by simp
next
  case (Cons x xs)
  show ?case
  proof (cases "n < k")
    case True
    then obtain d where d: "k - n = Suc d" by (cases "k - n") auto
    then have "k - Suc n = d" by arith
    with True d Cons[of "Suc n"] show ?thesis by simp
  next
    case False
    then have "filter (\<lambda>(j, v). j < k) (enumerate n (x # xs)) = []"
      by (auto simp: filter_empty_conv in_set_enumerate_eq)
    with False show ?thesis by simp
  qed
qed

section \<open>access_json_api: what is printed and returned\<close>

lemma print_str_field:
  "printable env v \<Longrightarrow>
   print_str (pystr a @ str_value env v) w =
     (Inr (), w\<lparr>console := console w @ [a @ field_text env v]\<rparr>)"
  by (simp add: print_str_def encode_pystr_append printable_def field_text_def
      split: sum.splits)

lemma print_fields_console:
  assumes "\<forall>v \<in> set (take 5 fs). printable env v"
  shows "print_fields env fs w =
     (Inr (), w\<lparr>console := console w @ map (field_line env) (enumerate 0 (take 5 fs))\<rparr>)"
proof -
  let ?g = "\<lambda>p. if fst p < 5 then [field_line env p] else []"
  have "print_fields env fs w = (Inr (), w\<lparr>console := console w @ concat (map ?g (enumerate 0 fs))\<rparr>)"
    unfolding print_fields_def
  proof (rule for_each_prints)
    fix p v
    assume p: "p \<in> set (enumerate 0 fs)"
    obtain j x where jx: "p = (j, x)" by (cases p)
    show "(case p of (j, x) \<Rightarrow>
             if j < 5 then print_str (pystr (''  Field '' @ str_nat j @ '': '') @ str_value env x)
             else ret ()) v
          = (Inr (), v\<lparr>console := console v @ ?g p\<rparr>)"
    proof (cases "j < 5")
      case True
      from p jx have "j < length fs" "fs ! j = x"
        by (auto simp: in_set_enumerate_eq)
      with True have "x \<in> set (take 5 fs)"
        by (metis in_set_conv_nth length_take min_less_iff_conj nth_take)
      with assms have "printable env x" by blast
      with True jx show ?thesis
        by (simp add: print_str_field field_line_def)
    next
      case False
      with jx show ?thesis by (simp add: ret_def)
    qed
  qed
  moreover have "concat (map ?g xs) = map (field_line env) (filter (\<lambda>(j, v). j < 5) xs)" for xs
    by (induction xs) auto
  ultimately show ?thesis
    using filter_enumerate_lt[of 5 0 fs] by simp
qed

lemma print_one_record_console:
  assumes "py_iter (recs ! i) = Inr fs"
    and "\<forall>v \<in> set (take 5 fs). printable env v"
  shows "print_one_record env recs i w =
     (Inr (), w\<lparr>console := console w @ record_lines env (i, enumerate 0 (take 5 fs))\<rparr>)"
  using assms(1)
  by (simp add: print_one_record_def bindE_print_line bindE_lift_Inr
      print_fields_console[OF assms(2)] record_lines_def record_header_def)

lemma iterable_items: "iterable v \<Longrightarrow> py_iter v = Inr (iter_items v)"
  by (simp add: iterable_def iter_items_def split: sum.splits)

lemma json_sample_enumerate:
  "n \<le> 3 \<Longrightarrow> n \<le> length recs \<Longrightarrow>
   map (\<lambda>i. (i, enumerate 0 (take 5 (iter_items (recs ! i))))) [0..<n]
     = enumerate 0 (take n (json_sample recs))"
  by (rule nth_equalityI) (simp_all add: json_sample_def nth_enumerate_eq)

lemma records_loop_console:
  assumes "\<forall>r \<in> set (take 3 recs). iterable r"
    and "\<forall>r \<in> set (take 3 recs). \<forall>v \<in> set (take 5 (iter_items r)). printable env v"
  shows "for_each [0..<min 3 (length recs)] (print_one_record env recs) w =
     (Inr (), w\<lparr>console := console w @
        concat (map (record_lines env) (enumerate 0 (json_sample recs)))\<rparr>)"
proof -
  let ?n = "min 3 (length recs)"
  let ?g = "\<lambda>i. record_lines env (i, enumerate 0 (take 5 (iter_items (recs ! i))))"
  have "for_each [0..<?n] (print_one_record env recs) w =
          (Inr (), w\<lparr>console := console w @ concat (map ?g [0..<?n])\<rparr>)"
  proof (rule for_each_prints)
    fix i v
    assume "i \<in> set [0..<?n]"
    then have "i < 3" "i < length recs" by auto
    then have mem: "recs ! i \<in> set (take 3 recs)"
      by (metis in_set_conv_nth length_take min_less_iff_conj nth_take)
    with assms(1) have "py_iter (recs ! i) = Inr (iter_items (recs ! i))"
      by (simp add: iterable_items)
    moreover from mem assms(2)
    have "\<forall>v \<in> set (take 5 (iter_items (recs ! i))). printable env v" by blast
    ultimately
    show "print_one_record env recs i v = (Inr (), v\<lparr>console := console v @ ?g i\<rparr>)"
      by (rule print_one_record_console)
  qed
  moreover have "map ?g [0..<?n] = map (record_lines env) (enumerate 0 (take ?n (json_sample recs)))"
    using json_sample_enumerate[of ?n recs, symmetric] by (simp add: comp_def)
  moreover have "take ?n (json_sample recs) = json_sample recs"
    by (simp add: json_sample_def)
  ultimately show ?thesis by simp
qed

lemma expected_shape_object:
  assumes "map_of kvs (pystr ''data'') = Some (JArray recs)"
  shows "expected_shape (JObject kvs) = Inr (recs \<noteq> [])"
proof -
  from assms have "pystr ''data'' \<in> set (map fst kvs)"
    by (metis map_of_eq_None_iff option.distinct(1) set_map)
  with assms show ?thesis by (simp add: expected_shape_def)
qed

lemma preview_pystr:
  "preview (pystr s) = pystr (if 500 < length s then take 500 s @ ''...'' else s)"
  by (simp add: preview_def pystr_def take_map)

lemma print_str_pystr: "print_str (pystr s) = print_line s"
  by (simp add: print_line_def)

text \<open>
  Claim C9. When the GET succeeds and the body decodes to an object whose key \<^verbatim>\<open>data\<close>
  maps to the empty list, \<^verbatim>\<open>access_json_api\<close> takes the branch for an unexpected shape:
  after the two banner lines it prints the notice and the preview of \<^verbatim>\<open>str(data)\<close>
  (the first 500 characters followed by an ellipsis when it is longer, the whole string
  otherwise), prints no record, and returns the decoded document, not \<^verbatim>\<open>None\<close>.
\<close>

theorem json_empty_data_preview:
  assumes "requests_get env api_url = Inr r"
    and "raise_for_status env r = None"
    and "response_json env r = Inr (JObject kvs)"
    and "map_of kvs (pystr ''data'') = Some (JArray [])"
  shows "access_json_api env w =
     (Inr (Some (JObject kvs)),
      w\<lparr>console := console w @
         [''Accessing JSON data from API: '' @ api_url,
          newline @ ''JSON API Access Sample:'',
          ''JSON data structure is different than expected. Sample output:'',
          (if 500 < length (py_str env (JObject kvs))
           then take 500 (py_str env (JObject kvs)) @ ''...''
           else py_str env (JObject kvs))]\<rparr>)"
  using assms expected_shape_object[OF assms(4)]
  by (simp add: access_json_api_def try_except_def json_body_def json_report_def bindE_print_line
      bindE_lift_Inr bindE_check_None bindE_ret ret_def preview_pystr print_str_pystr)

text \<open>
  Claim C1, amended. When the GET succeeds and the body decodes to an object whose key
  \<^verbatim>\<open>data\<close> maps to a non-empty list, each of the first three elements of that list
  can be iterated over (a list, a str or a dict), and none of the first five fields of
  these is a str that stdout cannot encode (one holding a lone surrogate), then
  \<^verbatim>\<open>access_json_api\<close> prints, after the banner lines and the count, exactly
  \<open>min 3 (length recs)\<close> records, each as its first \<open>min 5\<close> fields with their
  positions, in the original order, and returns the whole decoded document.
\<close>

theorem json_sample_printed:
  assumes "requests_get env api_url = Inr r"
    and "raise_for_status env r = None"
    and "response_json env r = Inr (JObject kvs)"
    and "map_of kvs (pystr ''data'') = Some (JArray recs)"
    and "recs \<noteq> []"
    and "\<forall>rc \<in> set (take 3 recs). iterable rc"
    and "\<forall>rc \<in> set (take 3 recs). \<forall>v \<in> set (take 5 (iter_items rc)). printable env v"
  shows "access_json_api env w =
     (Inr (Some (JObject kvs)),
      w\<lparr>console := console w @
         [''Accessing JSON data from API: '' @ api_url,
          newline @ ''JSON API Access Sample:'',
          ''Total records: '' @ str_nat (length recs)]
         @ concat (map (record_lines env) (enumerate 0 (json_sample recs)))\<rparr>)
   \<and> length (json_sample recs) = min 3 (length recs)
   \<and> (\<forall>i < length (json_sample recs).
         json_sample recs ! i = enumerate 0 (take 5 (iter_items (recs ! i)))
         \<and> length (json_sample recs ! i) = min 5 (length (iter_items (recs ! i))))"
proof -
  have "access_json_api env w =
     (Inr (Some (JObject kvs)),
      w\<lparr>console := console w @
         [''Accessing JSON data from API: '' @ api_url,
          newline @ ''JSON API Access Sample:'',
          ''Total records: '' @ str_nat (length recs)]
         @ concat (map (record_lines env) (enumerate 0 (json_sample recs)))\<rparr>)"
    using assms(1-5) expected_shape_object[OF assms(4)]
    by (simp add: access_json_api_def try_except_def json_body_def json_report_def bindE_print_line
        bindE_lift_Inr bindE_check_None bindE_ret ret_def bindE_def [of "for_each _ _"]
        records_loop_console[OF assms(6) assms(7)])
  moreover have "length (json_sample recs) = min 3 (length recs)"
    by (simp add: json_sample_def)
  moreover have "\<forall>i < length (json_sample recs).
         json_sample recs ! i = enumerate 0 (take 5 (iter_items (recs ! i)))
         \<and> length (json_sample recs ! i) = min 5 (length (iter_items (recs ! i)))"
    by (simp add: json_sample_def min.commute)
  ultimately show ?thesis by blast
qed

lemma str_nat_digit: "n < 10 \<Longrightarrow> str_nat n = [digit_char n]"
  by (simp add: str_nat.simps)

lemma body_env_json:
  "requests_get (body_env body) api_url = Inr (ok_response body)"
  "raise_for_status (body_env body) (ok_response body) = None"
  "response_json (body_env body) (ok_response body) = test_json_decode body"
  by (simp_all add: body_env_def test_env_def requests_raise_for_status_def ok_response_def)

lemma json_texts:
  "test_json_decode number_json_text = Inr number_doc"
  "test_json_decode empty_json_text = Inr empty_doc"
  "test_json_decode surrogate_json_text = Inr surrogate_doc"
  by (simp_all add: test_json_decode_def number_json_text_def scenario_json_text_def
      empty_json_text_def surrogate_json_text_def)

text \<open>
  Claim C1 as it is stated fails on \<^verbatim>\<open>{"data": [1]}\<close>: the value of \<^verbatim>\<open>data\<close> is a
  non-empty list and the test of line 50 passes, but \<^verbatim>\<open>enumerate(1)\<close> raises
  \<^verbatim>\<open>TypeError\<close>, which the handler turns into \<^verbatim>\<open>None\<close>.
\<close>

theorem json_sample_rejects_number_record:
  "response_json (body_env number_json_text) (ok_response number_json_text) = Inr number_doc
   \<and> expected_shape number_doc = Inr True
   \<and> fst (access_json_api (body_env number_json_text) empty_world) = Inr None"
  by (simp add: body_env_json json_texts)
     (simp add: expected_shape_def number_doc_def access_json_api_def try_except_def
      json_body_def json_report_def bindE_def print_line_apply lift_def check_def ret_def body_env_json
      json_texts [unfolded number_doc_def] print_one_record_def is_Exception_def)

text \<open>
  The same happens on a list of lists when a field is a str that stdout cannot encode:
  on a body whose data is one record with one field, the escape of the lone surrogate
  U+D800, the \<^verbatim>\<open>print\<close> of line 62 raises \<^verbatim>\<open>UnicodeEncodeError\<close> after the heading of
  the record, and the handler returns \<^verbatim>\<open>None\<close>.
\<close>

lemma json_sample_rejects_surrogate_field:
  "access_json_api (body_env surrogate_json_text) empty_world =
     (Inr None,
      \<lparr>files = Map.empty,
       console =
         [''Accessing JSON data from API: '' @ api_url,
          newline @ ''JSON API Access Sample:'',
          ''Total records: 1'',
          newline @ ''Record #1:'',
          ''Error accessing JSON API: codec cannot encode character: surrogates not allowed'']\<rparr>)"
  by (simp add: expected_shape_def surrogate_doc_def access_json_api_def try_except_def
      json_body_def json_report_def bindE_def print_line_apply lift_def check_def ret_def body_env_json
      json_texts [unfolded surrogate_doc_def] print_one_record_def print_fields_def
      print_str_def pystr_def is_Exception_def empty_world_def str_nat_digit digit_char_def)

text \<open>The theorem at the document \<^verbatim>\<open>{"data": []}\<close>.\<close>

theorem json_empty_data_preview_witness:
  "map_of [(pystr ''data'', JArray [])] (pystr ''data'') = Some (JArray [])
   \<and> access_json_api (body_env empty_json_text) empty_world =
     (Inr (Some empty_doc),
      \<lparr>files = Map.empty,
       console =
         [''Accessing JSON data from API: '' @ api_url,
          newline @ ''JSON API Access Sample:'',
          ''JSON data structure is different than expected. Sample output:'',
          ''{...}'']\<rparr>)"
  using json_empty_data_preview [of "body_env empty_json_text" "ok_response empty_json_text"
      "[(pystr ''data'', JArray [])]" empty_world]
  by (simp add: body_env_json json_texts empty_doc_def empty_world_def)
     (simp add: body_env_def test_env_def)

text \<open>The theorem at the end-to-end scenario of the specification: the body
  \<^verbatim>\<open>{"data": [["a","1","x","y","z","extra"],["b","2"]]}\<close>.\<close>

theorem json_sample_printed_witness:
  "json_sample
     [JArray [JString (pystr ''a''), JString (pystr ''1''), JString (pystr ''x''),
              JString (pystr ''y''), JString (pystr ''z''), JString (pystr ''extra'')],
      JArray [JString (pystr ''b''), JString (pystr ''2'')]]
   = [[(0, JString (pystr ''a'')), (1, JString (pystr ''1'')), (2, JString (pystr ''x'')),
       (3, JString (pystr ''y'')), (4, JString (pystr ''z''))],
      [(0, JString (pystr ''b'')), (1, JString (pystr ''2''))]]
   \<and> access_json_api good_env empty_world =
     (Inr (Some scenario_doc),
      \<lparr>files = Map.empty,
       console =
         [''Accessing JSON data from API: '' @ api_url,
          newline @ ''JSON API Access Sample:'',
          ''Total records: 2'',
          newline @ ''Record #1:'',
          ''  Field 0: a'', ''  Field 1: 1'', ''  Field 2: x'', ''  Field 3: y'',
          ''  Field 4: z'',
          newline @ ''Record #2:'',
          ''  Field 0: b'', ''  Field 1: 2'']\<rparr>)"
proof -
  let ?recs = "[JArray [JString (pystr ''a''), JString (pystr ''1''), JString (pystr ''x''),
                        JString (pystr ''y''), JString (pystr ''z''),
                        JString (pystr ''extra'')],
                JArray [JString (pystr ''b''), JString (pystr ''2'')]]"
  have sample: "json_sample ?recs
     = [[(0, JString (pystr ''a'')), (1, JString (pystr ''1'')), (2, JString (pystr ''x'')),
         (3, JString (pystr ''y'')), (4, JString (pystr ''z''))],
        [(0, JString (pystr ''b'')), (1, JString (pystr ''2''))]]"
    by (simp add: json_sample_def iter_items_def)
  have ft: "field_text good_env (JString (pystr s)) = s" for s
    by (simp add: field_text_def encode_pystr)
  have "access_json_api good_env empty_world =
     (Inr (Some (JObject [(pystr ''data'', JArray ?recs)])),
      empty_world\<lparr>console := console empty_world @
         [''Accessing JSON data from API: '' @ api_url,
          newline @ ''JSON API Access Sample:'',
          ''Total records: '' @ str_nat (length ?recs)]
         @ concat (map (record_lines good_env) (enumerate 0 (json_sample ?recs)))\<rparr>)"
    using json_sample_printed [of good_env "ok_response scenario_json_text"
        "[(pystr ''data'', JArray ?recs)]" ?recs empty_world]
    by (simp add: good_env_def test_env_def test_json_decode_def requests_raise_for_status_def
        ok_response_def scenario_doc_def iterable_def iter_items_def printable_def
        encode_pystr)
  then show ?thesis
    by (simp add: sample scenario_doc_def empty_world_def record_lines_def
        record_header_def field_line_def ft str_nat_digit digit_char_def)
qed

section \<open>download_and_read_xml: every way through the body\<close>

lemma collect_fields_result:
  "collect_fields cs d n w =
     (Inr (fold (\<lambda>c d. AList.update (strip_namespace (tag c)) (elem_text c) d) (take (5 - n) cs) d),
      w\<lparr>console := console w @ map child_line (take (5 - n) cs)\<rparr>)"
proof (induction cs arbitrary: d n w)
  case Nil
  then show ?case by (simp add: ret_def)
next
  case (Cons c cs)
  show ?case
  proof (cases "n < 5")
    case True
    then have "5 - n = Suc (5 - Suc n)" by arith
    with True show ?thesis
      by (simp add: Cons.IH bindE_print_line child_line_def Let_def)
  next
    case False
    then have "5 - n = 0" by arith
    with False Cons.IH[of d n w] show ?thesis by simp
  qed
qed

lemma sample_rows_result:
  "sample_rows ps acc w =
     (Inr (acc @ map (\<lambda>p. first_five_record (snd p)) ps),
      w\<lparr>console := console w @ concat (map row_lines ps)\<rparr>)"
proof (induction ps arbitrary: acc w)
  case Nil
  then show ?case by (simp add: ret_def)
next
  case (Cons p ps)
  show ?case
    by (simp add: Cons.IH bindE_print_line bindE_Inr[OF collect_fields_result]
        first_five_record_def row_lines_def record_header_def)
qed

lemma sample_rows_enumerate:
  "sample_rows (enumerate 0 rs) [] w =
     (Inr (map first_five_record rs),
      w\<lparr>console := console w @ concat (map row_lines (enumerate 0 rs))\<rparr>)"
proof -
  have "map first_five_record (map snd (enumerate 0 rs)) = map first_five_record rs"
    by (simp only: map_snd_enumerate)
  then have "map (first_five_record \<circ> snd) (enumerate 0 rs) = map first_five_record rs"
    by (simp only: map_map)
  then show ?thesis by (simp add: sample_rows_result comp_def)
qed

lemma xml_get_raises:
  assumes "requests_get env xml_url = Inl e"
  shows "xml_body env w =
     (Inl e, w\<lparr>console := console w @ [''Downloading XML file from: '' @ xml_url]\<rparr>)"
  using assms by (simp add: xml_body_def bindE_print_line bindE_lift_Inl)

lemma xml_status_raises:
  assumes "requests_get env xml_url = Inr r" and "raise_for_status env r = Some e"
  shows "xml_body env w =
     (Inl e, w\<lparr>console := console w @ [''Downloading XML file from: '' @ xml_url]\<rparr>)"
  using assms
  by (simp add: xml_body_def bindE_print_line bindE_lift_Inr bindE_check_Some)

lemma xml_open_raises:
  assumes "requests_get env xml_url = Inr r" and "raise_for_status env r = None"
    and "open_error env xml_temp_file = Some e"
  shows "xml_body env w =
     (Inl e, w\<lparr>console := console w @ [''Downloading XML file from: '' @ xml_url]\<rparr>)"
  using assms
  by (simp add: xml_body_def bindE_print_line bindE_lift_Inr bindE_check_None
      bindE_def[of "write_file _ _ _"] write_file_def)

lemma xml_parse_raises:
  assumes "requests_get env xml_url = Inr r" and "raise_for_status env r = None"
    and "open_error env xml_temp_file = None"
    and "ET_parse env (content r) = Inl e"
  shows "xml_body env w =
     (Inl e,
      w\<lparr>files := (files w)(xml_temp_file \<mapsto> content r),
        console := console w @
          [''Downloading XML file from: '' @ xml_url,
           ''File downloaded to: '' @ xml_temp_file]\<rparr>)"
  using assms
  by (simp add: xml_body_def bindE_print_line bindE_lift_Inr bindE_check_None
      bindE_def[of "write_file _ _ _"] write_file_def
      bindE_def[of "parse_file _ _"] parse_file_def)

lemma xml_remove_raises:
  assumes "requests_get env xml_url = Inr r" and "raise_for_status env r = None"
    and "open_error env xml_temp_file = None"
    and "ET_parse env (content r) = Inr root"
    and "os_remove_error env xml_temp_file = Some e"
  shows "xml_body env w =
     (Inl e,
      w\<lparr>files := (files w)(xml_temp_file \<mapsto> content r),
        console := console w @ xml_report root\<rparr>)"
  using assms
  by (simp add: xml_body_def bindE_print_line bindE_lift_Inr bindE_check_None
      bindE_def[of "write_file _ _ _"] write_file_def
      bindE_def[of "parse_file _ _"] parse_file_def
      bindE_Inr[OF sample_rows_enumerate]
      bindE_def[of "cleanup _ _"] cleanup_def path_exists_def
      bindE_def[of "os_remove _ _"] os_remove_def xml_report_def)

lemma xml_success:
  assumes "requests_get env xml_url = Inr r" and "raise_for_status env r = None"
    and "open_error env xml_temp_file = None"
    and "ET_parse env (content r) = Inr root"
    and "os_remove_error env xml_temp_file = None"
  shows "xml_body env w =
     (Inr (map first_five_record (take 3 (findall_row root))),
      w\<lparr>files := (files w)(xml_temp_file := None),
        console := console w @ xml_report root
          @ [''Temporary file '' @ xml_temp_file @ '' removed'']\<rparr>)"
  using assms
  by (simp add: xml_body_def bindE_print_line bindE_lift_Inr bindE_check_None
      bindE_def[of "write_file _ _ _"] write_file_def
      bindE_def[of "parse_file _ _"] parse_file_def
      bindE_Inr[OF sample_rows_enumerate]
      bindE_def[of "cleanup _ _"] cleanup_def path_exists_def
      bindE_def[of "os_remove _ _"] os_remove_def xml_report_def ret_def print_line_apply)

section \<open>access_csv_with_pandas: every way through the body\<close>

lemma print_statistics_result:
  "print_statistics env df w =
     (case stats_error env df of
        Some e \<Rightarrow> (Inl e, w)
      | None \<Rightarrow> (Inr (), w\<lparr>console := console w @ stats_lines env df\<rparr>))"
  by (cases "numeric_columns env df")
     (auto simp: print_statistics_def stats_error_def stats_lines_def ret_def bindE_def
       lift_def print_line_apply split: sum.splits)

lemma csv_get_raises:
  assumes "requests_get env csv_url = Inl e"
  shows "csv_body env w =
     (Inl e, w\<lparr>console := console w @ [''Downloading CSV file from: '' @ csv_url]\<rparr>)"
  using assms by (simp add: csv_body_def bindE_print_line bindE_lift_Inl)

lemma csv_status_raises:
  assumes "requests_get env csv_url = Inr r" and "raise_for_status env r = Some e"
  shows "csv_body env w =
     (Inl e, w\<lparr>console := console w @ [''Downloading CSV file from: '' @ csv_url]\<rparr>)"
  using assms
  by (simp add: csv_body_def bindE_print_line bindE_lift_Inr bindE_check_Some)

lemma csv_open_raises:
  assumes "requests_get env csv_url = Inr r" and "raise_for_status env r = None"
    and "open_error env csv_temp_file = Some e"
  shows "csv_body env w =
     (Inl e, w\<lparr>console := console w @ [''Downloading CSV file from: '' @ csv_url]\<rparr>)"
  using assms
  by (simp add: csv_body_def bindE_print_line bindE_lift_Inr bindE_check_None
      bindE_def[of "write_file _ _ _"] write_file_def)

lemma csv_read_raises:
  assumes "requests_get env csv_url = Inr r" and "raise_for_status env r = None"
    and "open_error env csv_temp_file = None"
    and "pd_read_csv env (content r) = Inl e"
  shows "csv_body env w =
     (Inl e,
      w\<lparr>files := (files w)(csv_temp_file \<mapsto> content r),
        console := console w @
          [''Downloading CSV file from: '' @ csv_url,
           ''File downloaded to: '' @ csv_temp_file]\<rparr>)"
  using assms
  by (simp add: csv_body_def bindE_print_line bindE_lift_Inr bindE_check_None
      bindE_def[of "write_file _ _ _"] write_file_def
      bindE_def[of "parse_file _ _"] parse_file_def)

lemma csv_to_string_raises:
  assumes "requests_get env csv_url = Inr r" and "raise_for_status env r = None"
    and "open_error env csv_temp_file = None"
    and "pd_read_csv env (content r) = Inr df"
    and "to_string env (head 3 df) = Inl e"
  shows "csv_body env w =
     (Inl e,
      w\<lparr>files := (files w)(csv_temp_file \<mapsto> content r),
        console := console w @ csv_preamble df\<rparr>)"
  using assms
  by (simp add: csv_body_def bindE_print_line bindE_lift_Inr bindE_lift_Inl bindE_check_None
      bindE_def[of "write_file _ _ _"] write_file_def
      bindE_def[of "parse_file _ _"] parse_file_def csv_preamble_def)

lemma csv_describe_raises:
  assumes "requests_get env csv_url = Inr r" and "raise_for_status env r = None"
    and "open_error env csv_temp_file = None"
    and "pd_read_csv env (content r) = Inr df"
    and "to_string env (head 3 df) = Inr s"
    and "stats_error env df = Some e"
  shows "csv_body env w =
     (Inl e,
      w\<lparr>files := (files w)(csv_temp_file \<mapsto> content r),
        console := console w @ csv_preamble df
          @ [s, newline @ ''Basic statistics (first numeric column):'']\<rparr>)"
  using assms
  by (simp add: csv_body_def bindE_print_line bindE_lift_Inr bindE_check_None
      bindE_def[of "write_file _ _ _"] write_file_def
      bindE_def[of "parse_file _ _"] parse_file_def csv_preamble_def
      bindE_def[of "print_statistics _ _"] print_statistics_result)

lemma csv_remove_raises:
  assumes "requests_get env csv_url = Inr r" and "raise_for_status env r = None"
    and "open_error env csv_temp_file = None"
    and "pd_read_csv env (content r) = Inr df"
    and "to_string env (head 3 df) = Inr s"
    and "stats_error env df = None"
    and "os_remove_error env csv_temp_file = Some e"
  shows "csv_body env w =
     (Inl e,
      w\<lparr>files := (files w)(csv_temp_file \<mapsto> content r),
        console := console w @ csv_preamble df
          @ [s, newline @ ''Basic statistics (first numeric column):'']
          @ stats_lines env df\<rparr>)"
  using assms
  by (simp add: csv_body_def bindE_print_line bindE_lift_Inr bindE_check_None
      bindE_def[of "write_file _ _ _"] write_file_def
      bindE_def[of "parse_file _ _"] parse_file_def csv_preamble_def
      bindE_def[of "print_statistics _ _"] print_statistics_result
      bindE_def[of "cleanup _ _"] cleanup_def path_exists_def
      bindE_def[of "os_remove _ _"] os_remove_def)

lemma csv_success:
  assumes "requests_get env csv_url = Inr r" and "raise_for_status env r = None"
    and "open_error env csv_temp_file = None"
    and "pd_read_csv env (content r) = Inr df"
    and "to_string env (head 3 df) = Inr s"
    and "stats_error env df = None"
    and "os_remove_error env csv_temp_file = None"
  shows "csv_body env w =
     (Inr df,
      w\<lparr>files := (files w)(csv_temp_file := None),
        console := console w @ csv_preamble df
          @ [s, newline @ ''Basic statistics (first numeric column):'']
          @ stats_lines env df
          @ [''Temporary file '' @ csv_temp_file @ '' removed'']\<rparr>)"
  using assms
  by (simp add: csv_body_def bindE_print_line bindE_lift_Inr bindE_check_None
      bindE_def[of "write_file _ _ _"] write_file_def
      bindE_def[of "parse_file _ _"] parse_file_def csv_preamble_def
      bindE_def[of "print_statistics _ _"] print_statistics_result
      bindE_def[of "cleanup _ _"] cleanup_def path_exists_def
      bindE_def[of "os_remove _ _"] os_remove_def ret_def print_line_apply)

section \<open>Namespaces and sample records\<close>

lemma split_on_nonempty: "split_on c s \<noteq> []"
  by (induction s) (auto split: list.splits)

lemma split_on_absent: "c \<notin> set s \<Longrightarrow> split_on c s = [s]"
  by (induction s) auto

lemma split_on_two: "c \<in> set s \<Longrightarrow> 2 \<le> length (split_on c s)"
proof (induction s)
  case Nil
  then show ?case by simp
next
  case (Cons x xs)
  show ?case
  proof (cases "x = c")
    case True
    with split_on_nonempty[of c xs] show ?thesis
      by (cases "split_on c xs") auto
  next
    case False
    with Cons show ?thesis by (auto split: list.splits)
  qed
qed

lemma last_split_on:
  assumes "c \<notin> set b"
  shows "last (split_on c (a @ c # b)) = b"
proof (induction a)
  case Nil
  with assms show ?case by (simp add: split_on_absent)
next
  case (Cons x xs)
  have two: "2 \<le> length (split_on c (xs @ c # b))"
    by (rule split_on_two) simp
  show ?case
  proof (cases "x = c")
    case True
    with Cons split_on_nonempty[of c "xs @ c # b"] show ?thesis by simp
  next
    case False
    obtain q qs where q: "split_on c (xs @ c # b) = q # qs"
      using split_on_nonempty[of c "xs @ c # b"] by (cases "split_on c (xs @ c # b)") auto
    with two have "qs \<noteq> []" by auto
    with q Cons False show ?thesis by simp
  qed
qed

lemma strip_namespace_plain: "CHR ''}'' \<notin> set t \<Longrightarrow> strip_namespace t = t"
  by (simp add: strip_namespace_def)

lemma strip_namespace_qualified:
  "CHR ''}'' \<notin> set b \<Longrightarrow> strip_namespace (a @ CHR ''}'' # b) = b"
  by (simp add: strip_namespace_def last_split_on)

lemma strip_namespace_bare: "CHR ''}'' \<notin> set (strip_namespace t)"
proof (cases "CHR ''}'' \<in> set t")
  case True
  then obtain a b where "t = a @ CHR ''}'' # b" "CHR ''}'' \<notin> set b"
    using split_list_last by fastforce
  then show ?thesis by (simp add: strip_namespace_qualified)
next
  case False
  then show ?thesis by (simp add: strip_namespace_plain)
qed

lemma map_of_fold_update:
  "map_of (fold (\<lambda>c d. AList.update (f c) (g c) d) xs d0) k =
     (case rev (filter (\<lambda>c. f c = k) xs) of
        [] \<Rightarrow> map_of d0 k
      | c # cs \<Rightarrow> Some (g c))"
  by (induction xs rule: rev_induct) (auto simp: update_conv' split: list.splits)

lemma keys_fold_update:
  "fst ` set (fold (\<lambda>c d. AList.update (f c) (g c) d) xs d0) = f ` set xs \<union> fst ` set d0"
  by (induction xs arbitrary: d0) (auto simp: dom_update)

lemma distinct_fold_update:
  "distinct (map fst d0) \<Longrightarrow>
   distinct (map fst (fold (\<lambda>c d. AList.update (f c) (g c) d) xs d0))"
  by (induction xs arbitrary: d0) (auto simp: distinct_update)

lemma first_five_record_lookup:
  "map_of (first_five_record row) k =
     (case rev (filter (\<lambda>c. strip_namespace (tag c) = k) (take 5 (children row))) of
        [] \<Rightarrow> None
      | c # cs \<Rightarrow> Some (elem_text c))"
  by (simp add: first_five_record_def map_of_fold_update split: list.splits)

lemma first_five_record_keys:
  "fst ` set (first_five_record row) =
     (\<lambda>c. strip_namespace (tag c)) ` set (take 5 (children row))"
  by (simp add: first_five_record_def keys_fold_update)

lemma first_five_record_length:
  "length (first_five_record row) =
     card ((\<lambda>c. strip_namespace (tag c)) ` set (take 5 (children row)))"
proof -
  have "distinct (map fst (first_five_record row))"
    by (simp add: first_five_record_def distinct_fold_update)
  then have "card (set (map fst (first_five_record row))) = length (map fst (first_five_record row))"
    by (rule distinct_card)
  then show ?thesis by (simp add: first_five_record_keys)
qed

lemma first_five_record_short:
  assumes "\<not> distinct (map (\<lambda>c. strip_namespace (tag c)) (take 5 (children row)))"
  shows "length (first_five_record row) < min 5 (length (children row))"
proof -
  let ?ts = "map (\<lambda>c. strip_namespace (tag c)) (take 5 (children row))"
  have "card (set ?ts) \<le> length ?ts" by (rule card_length)
  moreover from assms have "card (set ?ts) \<noteq> length ?ts"
    using card_distinct by blast
  ultimately have lt: "card (set ?ts) < length ?ts" by linarith
  have len: "length ?ts = min 5 (length (children row))" by (simp add: min.commute)
  have "length (first_five_record row) = card (set ?ts)"
    by (simp add: first_five_record_length)
  with lt len show ?thesis by linarith
qed

section \<open>access_json_api touches no file\<close>

lemma files_bindE:
  assumes "\<And>v. files (snd (m v)) = files v"
    and "\<And>x v. files (snd (k x v)) = files v"
  shows "files (snd (bindE m k w)) = files w"
proof (cases "m w")
  case (Pair a w1)
  with assms(1)[of w] have w1: "files w1 = files w" by simp
  show ?thesis
  proof (cases a)
    case (Inl e)
    with Pair w1 show ?thesis by (simp add: bindE_def)
  next
    case (Inr x)
    with Pair w1 assms(2)[of x w1] show ?thesis by (simp add: bindE_def)
  qed
qed

lemma files_print_str: "files (snd (print_str s w)) = files w"
  by (simp add: print_str_def split: sum.splits)

lemma files_print_line: "files (snd (print_line s w)) = files w"
  by (simp add: print_line_apply)

lemma files_lift: "files (snd (lift r w)) = files w"
  by (simp add: lift_def)

lemma files_check: "files (snd (check r w)) = files w"
  by (simp add: check_def split: option.splits)

lemma files_ret: "files (snd (ret x w)) = files w"
  by (simp add: ret_def)

lemma files_for_each:
  assumes "\<And>x v. files (snd (body x v)) = files v"
  shows "files (snd (for_each xs body w)) = files w"
proof (induction xs arbitrary: w)
  case Nil
  show ?case by (simp add: files_ret)
next
  case (Cons x xs)
  show ?case by (simp add: files_bindE assms Cons)
qed

lemma files_print_fields: "files (snd (print_fields env fs w)) = files w"
  unfolding print_fields_def
  by (rule files_for_each) (simp add: files_print_str files_ret split: prod.splits)

lemma files_print_one_record: "files (snd (print_one_record env recs i w)) = files w"
  unfolding print_one_record_def
  by (intro files_bindE files_print_line files_lift files_print_fields)

lemma files_json_body: "files (snd (json_body env w)) = files w"
  unfolding json_body_def json_report_def
  apply (intro files_bindE files_print_line files_lift files_check)
  apply (simp add: files_bindE files_print_line files_print_str files_lift files_ret
      files_for_each files_print_one_record)
  done

lemma files_access_json_api: "files (snd (access_json_api env w)) = files w"
proof (cases "json_body env w")
  case (Pair a w1)
  with files_json_body[of env w] have "files w1 = files w" by simp
  with Pair show ?thesis
    by (cases a) (simp_all add: access_json_api_def try_except_def)
qed

section \<open>What a normal return implies\<close>

lemma xml_returns_removed:
  assumes "xml_body env w = (Inr x, w')"
  shows "files w' xml_temp_file = None"
proof (cases "requests_get env xml_url")
  case (Inl e)
  with assms xml_get_raises[OF Inl, of w] show ?thesis by simp
next
  case (Inr r)
  show ?thesis
  proof (cases "raise_for_status env r")
    case (Some e)
    with assms xml_status_raises[OF Inr Some, of w] show ?thesis by simp
  next
    case None
    note st = None
    show ?thesis
    proof (cases "open_error env xml_temp_file")
      case (Some e)
      with assms xml_open_raises[OF Inr st Some, of w] show ?thesis by simp
    next
      case None
      note op = None
      show ?thesis
      proof (cases "ET_parse env (content r)")
        case (Inl e)
        with assms xml_parse_raises[OF Inr st op Inl, of w] show ?thesis by simp
      next
        case (Inr root)
        note pr = Inr
        show ?thesis
        proof (cases "os_remove_error env xml_temp_file")
          case (Some e)
          with assms xml_remove_raises[OF \<open>requests_get env xml_url = Inr r\<close> st op pr Some, of w]
          show ?thesis by simp
        next
          case None
          with assms xml_success[OF \<open>requests_get env xml_url = Inr r\<close> st op pr None, of w]
          show ?thesis by auto
        qed
      qed
    qed
  qed
qed

lemma csv_returns_removed:
  assumes "csv_body env w = (Inr x, w')"
  shows "files w' csv_temp_file = None"
proof (cases "requests_get env csv_url")
  case (Inl e)
  with assms csv_get_raises[OF Inl, of w] show ?thesis by simp
next
  case (Inr r)
  note gt = Inr
  show ?thesis
  proof (cases "raise_for_status env r")
    case (Some e)
    with assms csv_status_raises[OF gt Some, of w] show ?thesis by simp
  next
    case None
    note st = None
    show ?thesis
    proof (cases "open_error env csv_temp_file")
      case (Some e)
      with assms csv_open_raises[OF gt st Some, of w] show ?thesis by simp
    next
      case None
      note op = None
      show ?thesis
      proof (cases "pd_read_csv env (content r)")
        case (Inl e)
        with assms csv_read_raises[OF gt st op Inl, of w] show ?thesis by simp
      next
        case (Inr df)
        note rd = Inr
        show ?thesis
        proof (cases "to_string env (head 3 df)")
          case (Inl e)
          with assms csv_to_string_raises[OF gt st op rd Inl, of w] show ?thesis by simp
        next
          case (Inr s)
          note ts = Inr
          show ?thesis
          proof (cases "stats_error env df")
            case (Some e)
            with assms csv_describe_raises[OF gt st op rd ts Some, of w] show ?thesis by simp
          next
            case None
            note se = None
            show ?thesis
            proof (cases "os_remove_error env csv_temp_file")
              case (Some e)
              with assms csv_remove_raises[OF gt st op rd ts se Some, of w]
              show ?thesis by simp
            next
              case None
              with assms csv_success[OF gt st op rd ts se None, of w]
              show ?thesis by auto
            qed
          qed
        qed
      qed
    qed
  qed
qed

lemma csv_console_after_load:
  assumes gt: "requests_get env csv_url = Inr r" and st: "raise_for_status env r = None"
    and op: "open_error env csv_temp_file = None"
    and rd: "pd_read_csv env (content r) = Inr df"
  shows "\<exists>rest. console (snd (csv_body env w)) = console w @ csv_preamble df @ rest"
proof (cases "to_string env (head 3 df)")
  case (Inl e)
  with csv_to_string_raises[OF gt st op rd Inl, of w] show ?thesis by simp
next
  case (Inr s)
  note ts = Inr
  show ?thesis
  proof (cases "stats_error env df")
    case (Some e)
    with csv_describe_raises[OF gt st op rd ts Some, of w] show ?thesis by simp
  next
    case None
    note se = None
    show ?thesis
    proof (cases "os_remove_error env csv_temp_file")
      case (Some e)
      with csv_remove_raises[OF gt st op rd ts se Some, of w] show ?thesis by simp
    next
      case None
      with csv_success[OF gt st op rd ts se None, of w] show ?thesis by simp
    qed
  qed
qed

lemma try_except_console:
  "\<exists>rest. console (snd (try_except prefix body w)) = console (snd (body w)) @ rest"
  by (cases "body w"; cases "fst (body w)") (auto simp: try_except_def)

lemma try_except_returns:
  "fst (try_except prefix body w) = Inr (Some x) \<Longrightarrow> body w = (Inr x, snd (try_except prefix body w))"
  by (cases "body w"; cases "fst (body w)") (auto simp: try_except_def split: if_splits)

section \<open>The result does not depend on the files already there\<close>

lemma xml_outcome_fixed: "\<exists>a. \<forall>w. fst (xml_body env w) = a"
proof (cases "requests_get env xml_url")
  case (Inl e)
  then show ?thesis by (simp add: xml_get_raises)
next
  case (Inr r)
  note gt = Inr
  show ?thesis
  proof (cases "raise_for_status env r")
    case (Some e)
    with gt show ?thesis by (simp add: xml_status_raises)
  next
    case None
    note st = None
    show ?thesis
    proof (cases "open_error env xml_temp_file")
      case (Some e)
      with gt st show ?thesis by (simp add: xml_open_raises)
    next
      case None
      note op = None
      show ?thesis
      proof (cases "ET_parse env (content r)")
        case (Inl e)
        with gt st op show ?thesis by (simp add: xml_parse_raises)
      next
        case (Inr root)
        note pr = Inr
        show ?thesis
        proof (cases "os_remove_error env xml_temp_file")
          case (Some e)
          with gt st op pr show ?thesis by (simp add: xml_remove_raises)
        next
          case None
          with gt st op pr show ?thesis by (simp add: xml_success)
        qed
      qed
    qed
  qed
qed

lemma csv_outcome_fixed: "\<exists>a. \<forall>w. fst (csv_body env w) = a"
proof (cases "requests_get env csv_url")
  case (Inl e)
  then show ?thesis by (simp add: csv_get_raises)
next
  case (Inr r)
  note gt = Inr
  show ?thesis
  proof (cases "raise_for_status env r")
    case (Some e)
    with gt show ?thesis by (simp add: csv_status_raises)
  next
    case None
    note st = None
    show ?thesis
    proof (cases "open_error env csv_temp_file")
      case (Some e)
      with gt st show ?thesis by (simp add: csv_open_raises)
    next
      case None
      note op = None
      show ?thesis
      proof (cases "pd_read_csv env (content r)")
        case (Inl e)
        with gt st op show ?thesis by (simp add: csv_read_raises)
      next
        case (Inr df)
        note rd = Inr
        show ?thesis
        proof (cases "to_string env (head 3 df)")
          case (Inl e)
          with gt st op rd show ?thesis by (simp add: csv_to_string_raises)
        next
          case (Inr s)
          note ts = Inr
          show ?thesis
          proof (cases "stats_error env df")
            case (Some e)
            with gt st op rd ts show ?thesis by (simp add: csv_describe_raises)
          next
            case None
            note se = None
            show ?thesis
            proof (cases "os_remove_error env csv_temp_file")
              case (Some e)
              with gt st op rd ts se show ?thesis by (simp add: csv_remove_raises)
            next
              case None
              with gt st op rd ts se show ?thesis by (simp add: csv_success)
            qed
          qed
        qed
      qed
    qed
  qed
qed

text \<open>A file left by an earlier call never changes what the next call returns:
  \<^verbatim>\<open>open(name, 'wb')\<close> overwrites it.\<close>

lemma old_file_is_overwritten:
  "fst (download_and_read_xml env (w\<lparr>files := (files w)(xml_temp_file \<mapsto> old)\<rparr>))
     = fst (download_and_read_xml env w)"
  "fst (access_csv_with_pandas env (w\<lparr>files := (files w)(csv_temp_file \<mapsto> old)\<rparr>))
     = fst (access_csv_with_pandas env w)"
proof -
  have same: "fst (m v) = fst (m w) \<Longrightarrow> fst (try_except p m v) = fst (try_except p m w)"
    for p v w and m :: "'a io"
    by (cases "m v"; cases "m w"; cases "fst (m v)") (auto simp: try_except_def)
  from xml_outcome_fixed[of env] obtain a where "\<forall>w. fst (xml_body env w) = a" ..
  then show "fst (download_and_read_xml env (w\<lparr>files := (files w)(xml_temp_file \<mapsto> old)\<rparr>))
     = fst (download_and_read_xml env w)"
    unfolding download_and_read_xml_def by (intro same) simp
  from csv_outcome_fixed[of env] obtain b where "\<forall>w. fst (csv_body env w) = b" ..
  then show "fst (access_csv_with_pandas env (w\<lparr>files := (files w)(csv_temp_file \<mapsto> old)\<rparr>))
     = fst (access_csv_with_pandas env w)"
    unfolding access_csv_with_pandas_def by (intro same) simp
qed

section \<open>Finding the rows\<close>

lemma findall_row_children:
  "findall_row (Element t x cs) =
     concat (map (\<lambda>c. (if tag c = ''row'' then [c] else []) @ findall_row c) cs)"
proof -
  have "(if tag c = ''row'' then c # filter (\<lambda>e. tag e = ''row'') (descendants c)
         else filter (\<lambda>e. tag e = ''row'') (descendants c)) =
        (if tag c = ''row'' then [c] else []) @ filter (\<lambda>e. tag e = ''row'') (descendants c)"
    for c
    by simp
  then show ?thesis
    by (simp add: findall_row_def filter_concat comp_def)
qed

lemma length_findall_row: "length (findall_row r) = count_rows r"
proof (induction r)
  case (Element t x cs)
  have "length (findall_row (Element t x cs)) =
          sum_list (map (\<lambda>c. length ((if tag c = ''row'' then [c] else []) @ findall_row c)) cs)"
    by (simp add: findall_row_children length_concat comp_def)
  also have "\<dots> = sum_list (map (\<lambda>c. (if tag c = ''row'' then 1 else 0) + count_rows c) cs)"
    by (rule arg_cong[where f = sum_list], rule map_cong) (simp_all add: Element)
  finally show ?case by simp
qed

lemma below_descendants: "below e r \<longleftrightarrow> e \<in> set (descendants r)"
proof
  assume "below e r"
  then show "e \<in> set (descendants r)"
  proof (induction rule: below.induct)
    case (child c r)
    then show ?case by (cases r) auto
  next
    case (deeper c r e)
    then show ?case by (cases r) auto
  qed
next
  assume "e \<in> set (descendants r)"
  then show "below e r"
  proof (induction r arbitrary: e)
    case (Element t x cs)
    then obtain c where c: "c \<in> set cs" "e = c \<or> e \<in> set (descendants c)"
      by auto
    show ?case
    proof (cases "e = c")
      case True
      with c show ?thesis by (simp add: below.child)
    next
      case False
      with c have "e \<in> set (descendants c)" by simp
      with Element.IH c(1) have "below e c" by blast
      with c(1) show ?thesis by (auto intro: below.deeper)
    qed
  qed
qed

lemma findall_row_below:
  "e \<in> set (findall_row r) \<longleftrightarrow> below e r \<and> tag e = ''row''"
  by (auto simp: findall_row_def below_descendants)

section \<open>What a body can raise\<close>

















section \<open>download_and_read_xml: a failed parse\<close>

lemma truncated_xml_rejected:
  "ET_parse (body_env truncated_xml_text) (content (ok_response truncated_xml_text)) =
     Inl (Exn ParseError ''no element found: line 1, column 15'')"
proof -
  have "length truncated_xml_text = 15"
    by (simp add: truncated_xml_text_def)
  moreover have "truncated_xml_text \<noteq> scenario_xml_text"
    by (simp add: truncated_xml_text_def scenario_xml_text_def)
  moreover have "truncated_xml_text \<noteq> nested_xml_text"
    by (simp add: truncated_xml_text_def nested_xml_text_def)
  moreover have "str_nat 15 = ''15''"
    by (simp add: str_nat.simps digit_char_def)
  ultimately show ?thesis
    by (simp add: body_env_def test_env_def test_xml_parse_def ok_response_def)
qed

lemma truncated_xml_body:
  "xml_body (body_env truncated_xml_text) w =
     (Inl (Exn ParseError ''no element found: line 1, column 15''),
      w\<lparr>files := (files w)(xml_temp_file \<mapsto> truncated_xml_text),
        console := console w @
          [''Downloading XML file from: '' @ xml_url,
           ''File downloaded to: '' @ xml_temp_file]\<rparr>)"
proof -
  have "requests_get (body_env truncated_xml_text) xml_url = Inr (ok_response truncated_xml_text)"
    by (simp add: body_env_def test_env_def)
  moreover have "raise_for_status (body_env truncated_xml_text) (ok_response truncated_xml_text) = None"
    by (simp add: body_env_def test_env_def requests_raise_for_status_def ok_response_def)
  moreover have "open_error (body_env truncated_xml_text) xml_temp_file = None"
    by (simp add: body_env_def test_env_def)
  ultimately show ?thesis
    using xml_parse_raises [OF _ _ _ truncated_xml_rejected, of w]
    by (simp add: ok_response_def)
qed

text \<open>
  Claim C2. The claim asks that, when the GET succeeds, the bytes are written and the
  parse raises, the function still tries to delete the file before it returns \<^verbatim>\<open>None\<close>.
  The code does not: the raise of \<^verbatim>\<open>ET.parse\<close> goes straight to the handler, which prints
  and returns, and lines 138 to 140 never run. On the truncated body
  \<^verbatim>\<open><response><row>\<close> the call returns \<^verbatim>\<open>None\<close>, prints no removal line, and the file is
  still in the directory with the downloaded bytes.
\<close>

theorem xml_parse_failure_leaves_file:
  "download_and_read_xml (body_env truncated_xml_text) empty_world =
     (Inr None,
      \<lparr>files = [xml_temp_file \<mapsto> truncated_xml_text],
       console =
         [''Downloading XML file from: '' @ xml_url,
          ''File downloaded to: '' @ xml_temp_file,
          ''Error downloading and reading XML: no element found: line 1, column 15'']\<rparr>)"
  by (simp add: download_and_read_xml_def try_except_def truncated_xml_body empty_world_def
      is_Exception_def)

text \<open>
  Claim C7. The claim asks that two calls in a row leave no temporary file. With an
  endpoint that answers the truncated body both times, both calls return \<^verbatim>\<open>None\<close>
  and the file written by the second call (over the one the first call left) is
  still there afterwards.
\<close>

theorem xml_twice_leaves_file:
  "fst (download_and_read_xml (body_env truncated_xml_text) empty_world) = Inr None
   \<and> fst (download_and_read_xml (body_env truncated_xml_text)
          (snd (download_and_read_xml (body_env truncated_xml_text) empty_world))) = Inr None
   \<and> files (snd (download_and_read_xml (body_env truncated_xml_text)
          (snd (download_and_read_xml (body_env truncated_xml_text) empty_world))))
        xml_temp_file = Some truncated_xml_text"
  by (simp add: download_and_read_xml_def try_except_def truncated_xml_body is_Exception_def)

section \<open>download_and_read_xml: the sample\<close>

text \<open>
  Claim C3. When the GET, the write, the parse and the removal succeed,
  \<^verbatim>\<open>download_and_read_xml\<close> returns the records of the first \<open>min 3 N\<close> elements that
  \<^verbatim>\<open>findall('.//row')\<close> finds, in the order it finds them. \<open>N\<close> is the number of
  elements named \<^verbatim>\<open>row\<close> below the root, counted child by child (\<open>count_rows\<close>); what is
  found is exactly the elements below the root, at any depth, whose tag is \<^verbatim>\<open>row\<close>; and
  the order is the one of the document: the rows of the first child, the child itself
  first when it is a row, then those of the second child, and so on. The keys of a
  record are the tags of the first five children of its row with the namespace
  stripped: a stripped tag holds no closing brace, a tag without a brace is kept, and of
  \<^verbatim>\<open>{uri}tag\<close> only what follows the last closing brace is kept.
\<close>

theorem xml_sample_records:
  assumes "requests_get env xml_url = Inr r"
    and "raise_for_status env r = None"
    and "open_error env xml_temp_file = None"
    and "ET_parse env (content r) = Inr root"
    and "os_remove_error env xml_temp_file = None"
  shows "fst (download_and_read_xml env w) =
           Inr (Some (map first_five_record (take 3 (findall_row root))))
   \<and> length (map first_five_record (take 3 (findall_row root))) = min 3 (count_rows root)
   \<and> (\<forall>e. e \<in> set (findall_row root) \<longleftrightarrow> below e root \<and> tag e = ''row'')
   \<and> (\<forall>t x cs. findall_row (Element t x cs) =
          concat (map (\<lambda>c. (if tag c = ''row'' then [c] else []) @ findall_row c) cs))
   \<and> (\<forall>row. fst ` set (first_five_record row) =
          (\<lambda>c. strip_namespace (tag c)) ` set (take 5 (children row)))
   \<and> (\<forall>t. CHR ''}'' \<notin> set (strip_namespace t))
   \<and> (\<forall>t. CHR ''}'' \<notin> set t \<longrightarrow> strip_namespace t = t)
   \<and> (\<forall>a b. CHR ''}'' \<notin> set b \<longrightarrow> strip_namespace (a @ CHR ''}'' # b) = b)"
proof -
  have c1: "fst (download_and_read_xml env w) =
           Inr (Some (map first_five_record (take 3 (findall_row root))))"
    using xml_success[OF assms, of w]
    by (simp add: download_and_read_xml_def try_except_def)
  have c2: "length (map first_five_record (take 3 (findall_row root))) = min 3 (count_rows root)"
    by (simp add: min.commute length_findall_row)
  have c3: "\<forall>e. e \<in> set (findall_row root) \<longleftrightarrow> below e root \<and> tag e = ''row''"
    by (simp add: findall_row_below)
  have c4: "\<forall>t x cs. findall_row (Element t x cs) =
          concat (map (\<lambda>c. (if tag c = ''row'' then [c] else []) @ findall_row c) cs)"
    by (simp only: findall_row_children) simp
  from c1 c2 c3 c4 show ?thesis
    using first_five_record_keys strip_namespace_bare strip_namespace_plain
      strip_namespace_qualified by blast
qed

text \<open>
  Claim C10. The record returned for a sampled row maps each stripped tag to the text of
  the last of the first five children that carries it, so later duplicates overwrite
  earlier ones; and when two of the first five children share a stripped tag, the record
  has strictly fewer entries than \<open>min 5\<close> of the number of children.
\<close>

theorem xml_duplicate_tags_last_wins:
  assumes "requests_get env xml_url = Inr r"
    and "raise_for_status env r = None"
    and "open_error env xml_temp_file = None"
    and "ET_parse env (content r) = Inr root"
    and "os_remove_error env xml_temp_file = None"
  shows "(\<exists>recs. fst (download_and_read_xml env w) = Inr (Some recs)
            \<and> length recs = length (take 3 (findall_row root))
            \<and> (\<forall>i < length recs. recs ! i = first_five_record (findall_row root ! i)))
   \<and> (\<forall>row k. map_of (first_five_record row) k =
          (case rev (filter (\<lambda>c. strip_namespace (tag c) = k) (take 5 (children row))) of
             [] \<Rightarrow> None
           | c # cs \<Rightarrow> Some (elem_text c)))
   \<and> (\<forall>row. \<not> distinct (map (\<lambda>c. strip_namespace (tag c)) (take 5 (children row)))
          \<longrightarrow> length (first_five_record row) < min 5 (length (children row)))"
proof -
  let ?recs = "map first_five_record (take 3 (findall_row root))"
  have "fst (download_and_read_xml env w) = Inr (Some ?recs)"
    using xml_success[OF assms, of w]
    by (simp add: download_and_read_xml_def try_except_def)
  moreover have "length ?recs = length (take 3 (findall_row root))" by simp
  moreover have "\<forall>i < length ?recs. ?recs ! i = first_five_record (findall_row root ! i)"
    by simp
  ultimately have "\<exists>recs. fst (download_and_read_xml env w) = Inr (Some recs)
            \<and> length recs = length (take 3 (findall_row root))
            \<and> (\<forall>i < length recs. recs ! i = first_five_record (findall_row root ! i))"
    by blast
  then show ?thesis
    using first_five_record_lookup first_five_record_short by blast
qed

lemma good_env_xml:
  "requests_get good_env xml_url = Inr (ok_response scenario_xml_text)"
  "raise_for_status good_env (ok_response scenario_xml_text) = None"
  "open_error good_env xml_temp_file = None"
  "ET_parse good_env (content (ok_response scenario_xml_text)) = Inr scenario_root"
  "os_remove_error good_env xml_temp_file = None"
  by (simp_all add: good_env_def test_env_def test_xml_parse_def requests_raise_for_status_def
      ok_response_def xml_url_def api_url_def)

lemma nested_env_xml:
  "requests_get (body_env nested_xml_text) xml_url = Inr (ok_response nested_xml_text)"
  "raise_for_status (body_env nested_xml_text) (ok_response nested_xml_text) = None"
  "open_error (body_env nested_xml_text) xml_temp_file = None"
  "ET_parse (body_env nested_xml_text) (content (ok_response nested_xml_text)) = Inr nested_root"
  "os_remove_error (body_env nested_xml_text) xml_temp_file = None"
proof -
  have "nested_xml_text \<noteq> scenario_xml_text"
    by (simp add: nested_xml_text_def scenario_xml_text_def)
  then show
    "requests_get (body_env nested_xml_text) xml_url = Inr (ok_response nested_xml_text)"
    "raise_for_status (body_env nested_xml_text) (ok_response nested_xml_text) = None"
    "open_error (body_env nested_xml_text) xml_temp_file = None"
    "ET_parse (body_env nested_xml_text) (content (ok_response nested_xml_text)) = Inr nested_root"
    "os_remove_error (body_env nested_xml_text) xml_temp_file = None"
    by (simp_all add: body_env_def test_env_def test_xml_parse_def requests_raise_for_status_def
        ok_response_def)
qed

lemma scenario_rows: "findall_row scenario_root = [scenario_row]"
  by (simp add: findall_row_def scenario_root_def scenario_row_def)

lemma nested_rows:
  "findall_row nested_root =
     [nested_outer, nested_first, nested_second, Element ''row'' None [], Element ''row'' None []]"
  by (simp add: findall_row_def nested_root_def nested_outer_def nested_first_def
      nested_second_def)

lemma nested_count: "count_rows nested_root = 5"
  by (simp add: nested_root_def nested_outer_def nested_first_def nested_second_def)

lemma strip_examples:
  "strip_namespace ''{http://example.org/ev}make'' = ''make''"
  "strip_namespace ''{http://example.org/ev}model'' = ''model''"
  "strip_namespace ''{http://example.org/ev}vin'' = ''vin''"
  "strip_namespace ''make'' = ''make''"
  "strip_namespace ''row'' = ''row''"
  "strip_namespace ''vin'' = ''vin''"
  "strip_namespace ''county'' = ''county''"
  "strip_namespace ''city'' = ''city''"
  "strip_namespace ''state'' = ''state''"
  "strip_namespace ''year'' = ''year''"
  by (simp_all add: strip_namespace_def)

lemma scenario_record:
  "first_five_record scenario_row = [(''make'', Some ''NISSAN''), (''model'', Some ''LEAF'')]"
  by (simp add: first_five_record_def scenario_row_def strip_examples)

lemma nested_records:
  "first_five_record nested_outer = [(''row'', None)]"
  "first_five_record nested_first =
     [(''vin'', Some ''5YJ3''), (''county'', Some ''King''), (''city'', Some ''Seattle''),
      (''state'', Some ''WA''), (''year'', Some ''2020'')]"
  "first_five_record nested_second = [(''vin'', Some ''1N4A'')]"
  by (simp_all add: first_five_record_def nested_outer_def nested_first_def nested_second_def
      strip_examples)

text \<open>The theorem at the nested XML body: five elements are named \<^verbatim>\<open>row\<close>, found
  outermost first; the sample holds the first three, and of the seven children of the
  second one the first five, the first of them with its namespace stripped.\<close>

theorem xml_sample_records_witness:
  "count_rows nested_root = 5
   \<and> findall_row nested_root =
       [nested_outer, nested_first, nested_second,
        Element ''row'' None [], Element ''row'' None []]
   \<and> below nested_second nested_root
   \<and> length (children nested_first) = 7
   \<and> fst (download_and_read_xml (body_env nested_xml_text) empty_world) =
       Inr (Some [[(''row'', None)],
                  [(''vin'', Some ''5YJ3''), (''county'', Some ''King''),
                   (''city'', Some ''Seattle''), (''state'', Some ''WA''),
                   (''year'', Some ''2020'')],
                  [(''vin'', Some ''1N4A'')]])
   \<and> strip_namespace ''{http://example.org/ev}vin'' = ''vin''"
proof -
  note inst = xml_sample_records [OF nested_env_xml, of empty_world]
  from inst have "fst (download_and_read_xml (body_env nested_xml_text) empty_world) =
       Inr (Some (map first_five_record (take 3 (findall_row nested_root))))"
    by blast
  then have res: "fst (download_and_read_xml (body_env nested_xml_text) empty_world) =
       Inr (Some [[(''row'', None)],
                  [(''vin'', Some ''5YJ3''), (''county'', Some ''King''),
                   (''city'', Some ''Seattle''), (''state'', Some ''WA''),
                   (''year'', Some ''2020'')],
                  [(''vin'', Some ''1N4A'')]])"
    by (simp add: nested_rows nested_records)
  from inst have "nested_second \<in> set (findall_row nested_root)
      \<longleftrightarrow> below nested_second nested_root \<and> tag nested_second = ''row''"
    by blast
  then have bel: "below nested_second nested_root"
    by (simp add: nested_rows)
  have "length (children nested_first) = 7"
    by (simp add: nested_first_def)
  with res bel show ?thesis
    by (simp add: nested_rows nested_count strip_examples)
qed

text \<open>The theorem at the XML scenario: the row has three children, two of them
  \<^verbatim>\<open>make\<close>; the record has two entries and \<^verbatim>\<open>make\<close> holds the text of the second.\<close>

theorem xml_duplicate_tags_last_wins_witness:
  "\<not> distinct (map (\<lambda>c. strip_namespace (tag c)) (take 5 (children scenario_row)))
   \<and> fst (download_and_read_xml good_env empty_world) =
       Inr (Some [[(''make'', Some ''NISSAN''), (''model'', Some ''LEAF'')]])
   \<and> map_of (first_five_record scenario_row) ''make'' = Some (Some ''NISSAN'')
   \<and> length (first_five_record scenario_row) = 2
   \<and> min 5 (length (children scenario_row)) = 3"
proof -
  have dup: "\<not> distinct (map (\<lambda>c. strip_namespace (tag c)) (take 5 (children scenario_row)))"
    by (simp add: scenario_row_def strip_examples)
  from xml_duplicate_tags_last_wins [OF good_env_xml, of empty_world]
  have "\<exists>recs. fst (download_and_read_xml good_env empty_world) = Inr (Some recs)
            \<and> length recs = 1 \<and> recs ! 0 = first_five_record scenario_row"
    and "length (first_five_record scenario_row) < min 5 (length (children scenario_row))"
    using dup by (auto simp: scenario_rows)
  then obtain recs where recs:
    "fst (download_and_read_xml good_env empty_world) = Inr (Some recs)"
    "length recs = 1" "recs ! 0 = first_five_record scenario_row" by blast
  then have "recs = [first_five_record scenario_row]"
    by (cases recs) auto
  with recs dup show ?thesis
    by (simp add: scenario_record) (simp add: scenario_row_def)
qed

section \<open>Failures\<close>

lemma xml_get_fails:
  assumes "get_fails env xml_url"
  shows "\<exists>e. is_Exception e \<and> xml_body env w =
     (Inl e, w\<lparr>console := console w @ [''Downloading XML file from: '' @ xml_url]\<rparr>)"
proof (cases "requests_get env xml_url")
  case (Inl e)
  with assms have "is_Exception e" by (simp add: get_fails_def)
  with Inl show ?thesis using xml_get_raises[of env e w] by blast
next
  case (Inr r)
  with assms obtain e where "raise_for_status env r = Some e" "is_Exception e"
    by (auto simp: get_fails_def split: option.splits)
  with Inr show ?thesis using xml_status_raises[of env r e w] by blast
qed

lemma csv_get_fails:
  assumes "get_fails env csv_url"
  shows "\<exists>e. is_Exception e \<and> csv_body env w =
     (Inl e, w\<lparr>console := console w @ [''Downloading CSV file from: '' @ csv_url]\<rparr>)"
proof (cases "requests_get env csv_url")
  case (Inl e)
  with assms have "is_Exception e" by (simp add: get_fails_def)
  with Inl show ?thesis using csv_get_raises[of env e w] by blast
next
  case (Inr r)
  with assms obtain e where "raise_for_status env r = Some e" "is_Exception e"
    by (auto simp: get_fails_def split: option.splits)
  with Inr show ?thesis using csv_status_raises[of env r e w] by blast
qed

lemma status_check_raises:
  "(\<exists>e. requests_raise_for_status r = Some e \<and> is_Exception e)
     \<longleftrightarrow> 400 \<le> status_code r \<and> status_code r < 600"
  by (auto simp: requests_raise_for_status_def is_Exception_def)

lemma multiple_choices_xml:
  "requests_get multiple_choices_env xml_url =
     Inr \<lparr>status_code = 300, content = scenario_xml_text\<rparr>"
  "raise_for_status multiple_choices_env \<lparr>status_code = 300, content = scenario_xml_text\<rparr> = None"
  "open_error multiple_choices_env xml_temp_file = None"
  "ET_parse multiple_choices_env (content \<lparr>status_code = 300, content = scenario_xml_text\<rparr>) =
     Inr scenario_root"
  "os_remove_error multiple_choices_env xml_temp_file = None"
  by (simp_all add: multiple_choices_env_def test_env_def test_xml_parse_def
      requests_raise_for_status_def)

lemma not_modified_xml:
  "xml_body not_modified_env empty_world =
     (Inl (Exn ParseError ''no element found: line 1, column 0''),
      \<lparr>files = [xml_temp_file \<mapsto> []],
       console = [''Downloading XML file from: '' @ xml_url,
                  ''File downloaded to: '' @ xml_temp_file]\<rparr>)"
proof -
  have "str_nat 0 = ''0''" by (simp add: str_nat.simps digit_char_def)
  then have "ET_parse not_modified_env (content \<lparr>status_code = 304, content = []\<rparr>) =
     Inl (Exn ParseError ''no element found: line 1, column 0'')"
    by (simp add: not_modified_env_def test_env_def test_xml_parse_def
        scenario_xml_text_def nested_xml_text_def)
  from xml_parse_raises [OF _ _ _ this, of empty_world] show ?thesis
    by (simp add: not_modified_env_def test_env_def requests_raise_for_status_def
        empty_world_def)
qed

lemma not_modified_csv:
  "csv_body not_modified_env empty_world =
     (Inl (Exn EmptyDataError ''No columns to parse from file''),
      \<lparr>files = [csv_temp_file \<mapsto> []],
       console = [''Downloading CSV file from: '' @ csv_url,
                  ''File downloaded to: '' @ csv_temp_file]\<rparr>)"
proof -
  have "pd_read_csv not_modified_env (content \<lparr>status_code = 304, content = []\<rparr>) =
     Inl (Exn EmptyDataError ''No columns to parse from file'')"
    by (simp add: not_modified_env_def test_env_def test_read_csv_def scenario_csv_text_def)
  from csv_read_raises [OF _ _ _ this, of empty_world] show ?thesis
    by (simp add: not_modified_env_def test_env_def requests_raise_for_status_def
        empty_world_def)
qed

text \<open>
  Claim C4 as it is stated fails at a status that is neither 2xx nor an error of
  \<^verbatim>\<open>requests\<close>. A server that answers 300 with an XML body is not a failed GET for the
  script: \<^verbatim>\<open>raise_for_status\<close> raises nothing and \<^verbatim>\<open>download_and_read_xml\<close> returns the
  records. A server that answers 304 with no body gets its empty body written to the
  temporary file, the decoder rejects it, and the file stays in the directory, for
  the XML and for the CSV fetcher.
\<close>

theorem non_2xx_status_is_not_a_failure:
  "\<not> get_fails multiple_choices_env xml_url
   \<and> fst (download_and_read_xml multiple_choices_env empty_world) =
       Inr (Some [[(''make'', Some ''NISSAN''), (''model'', Some ''LEAF'')]])
   \<and> \<not> get_fails not_modified_env xml_url
   \<and> fst (download_and_read_xml not_modified_env empty_world) = Inr None
   \<and> files (snd (download_and_read_xml not_modified_env empty_world)) xml_temp_file = Some []
   \<and> \<not> get_fails not_modified_env csv_url
   \<and> fst (access_csv_with_pandas not_modified_env empty_world) = Inr None
   \<and> files (snd (access_csv_with_pandas not_modified_env empty_world)) csv_temp_file = Some []"
proof -
  have a: "\<not> get_fails multiple_choices_env xml_url"
    by (simp add: get_fails_def multiple_choices_env_def test_env_def
        requests_raise_for_status_def)
  have b: "fst (download_and_read_xml multiple_choices_env empty_world) =
       Inr (Some [[(''make'', Some ''NISSAN''), (''model'', Some ''LEAF'')]])"
    using xml_success [OF multiple_choices_xml, of empty_world]
    by (simp add: download_and_read_xml_def try_except_def scenario_rows scenario_record)
  have c: "\<not> get_fails not_modified_env url" for url
    by (simp add: get_fails_def not_modified_env_def test_env_def
        requests_raise_for_status_def)
  have d: "fst (download_and_read_xml not_modified_env empty_world) = Inr None"
    "files (snd (download_and_read_xml not_modified_env empty_world)) xml_temp_file = Some []"
    by (simp_all add: download_and_read_xml_def try_except_def not_modified_xml
        is_Exception_def)
  have e: "fst (access_csv_with_pandas not_modified_env empty_world) = Inr None"
    "files (snd (access_csv_with_pandas not_modified_env empty_world)) csv_temp_file = Some []"
    by (simp_all add: access_csv_with_pandas_def try_except_def not_modified_csv
        is_Exception_def)
  from a b c d e show ?thesis by simp
qed

text \<open>
  Claim C4, amended. When the GET of \<^verbatim>\<open>download_and_read_xml\<close> or of
  \<^verbatim>\<open>access_csv_with_pandas\<close> fails, the function returns \<^verbatim>\<open>None\<close> and the files of the
  directory are exactly what they were: the status check comes before the write, so
  nothing is created. The GET fails when \<^verbatim>\<open>requests.get\<close> raises an error or
  \<^verbatim>\<open>raise_for_status\<close> does; with the status check of \<^verbatim>\<open>requests\<close> the second case is
  exactly a status from 400 to 599, such as 404, and not every status outside 2xx.
\<close>

theorem failed_get_creates_no_file:
  "(get_fails env xml_url \<longrightarrow>
      fst (download_and_read_xml env w) = Inr None
      \<and> files (snd (download_and_read_xml env w)) = files w)
   \<and> (get_fails env csv_url \<longrightarrow>
      fst (access_csv_with_pandas env w) = Inr None
      \<and> files (snd (access_csv_with_pandas env w)) = files w)
   \<and> (\<forall>url e. requests_get env url = Inl e \<longrightarrow> (get_fails env url \<longleftrightarrow> is_Exception e))
   \<and> (\<forall>url r. requests_get env url = Inr r
          \<and> raise_for_status env r = requests_raise_for_status r \<longrightarrow>
        (get_fails env url \<longleftrightarrow> 400 \<le> status_code r \<and> status_code r < 600))"
proof -
  have c1: "get_fails env xml_url \<longrightarrow>
      fst (download_and_read_xml env w) = Inr None
      \<and> files (snd (download_and_read_xml env w)) = files w"
  proof
    assume "get_fails env xml_url"
    from xml_get_fails[OF this, of w] obtain e where "is_Exception e"
      "xml_body env w =
         (Inl e, w\<lparr>console := console w @ [''Downloading XML file from: '' @ xml_url]\<rparr>)"
      by blast
    then show "fst (download_and_read_xml env w) = Inr None
      \<and> files (snd (download_and_read_xml env w)) = files w"
      by (simp add: download_and_read_xml_def try_except_def)
  qed
  have c2: "get_fails env csv_url \<longrightarrow>
      fst (access_csv_with_pandas env w) = Inr None
      \<and> files (snd (access_csv_with_pandas env w)) = files w"
  proof
    assume "get_fails env csv_url"
    from csv_get_fails[OF this, of w] obtain e where "is_Exception e"
      "csv_body env w =
         (Inl e, w\<lparr>console := console w @ [''Downloading CSV file from: '' @ csv_url]\<rparr>)"
      by blast
    then show "fst (access_csv_with_pandas env w) = Inr None
      \<and> files (snd (access_csv_with_pandas env w)) = files w"
      by (simp add: access_csv_with_pandas_def try_except_def)
  qed
  have c3: "\<forall>url e. requests_get env url = Inl e \<longrightarrow> (get_fails env url \<longleftrightarrow> is_Exception e)"
    by (simp add: get_fails_def)
  have c4: "\<forall>url r. requests_get env url = Inr r
          \<and> raise_for_status env r = requests_raise_for_status r \<longrightarrow>
        (get_fails env url \<longleftrightarrow> 400 \<le> status_code r \<and> status_code r < 600)"
  proof (intro allI impI)
    fix url r
    assume a: "requests_get env url = Inr r
          \<and> raise_for_status env r = requests_raise_for_status r"
    then have "get_fails env url \<longleftrightarrow>
        (\<exists>e. requests_raise_for_status r = Some e \<and> is_Exception e)"
      by (auto simp: get_fails_def split: option.splits)
    then show "get_fails env url \<longleftrightarrow> 400 \<le> status_code r \<and> status_code r < 600"
      by (simp only: status_check_raises)
  qed
  from c1 c2 c3 c4 show ?thesis by (intro conjI)
qed

text \<open>The theorem at a server that answers 404 and at a network that refuses the
  connection, from an empty directory.\<close>

theorem failed_get_creates_no_file_witness:
  "status_code not_found = 404
   \<and> get_fails not_found_env xml_url \<and> get_fails not_found_env csv_url
   \<and> fst (download_and_read_xml not_found_env empty_world) = Inr None
   \<and> files (snd (download_and_read_xml not_found_env empty_world)) = Map.empty
   \<and> fst (access_csv_with_pandas not_found_env empty_world) = Inr None
   \<and> files (snd (access_csv_with_pandas not_found_env empty_world)) = Map.empty
   \<and> get_fails unreachable_env xml_url \<and> get_fails unreachable_env csv_url
   \<and> fst (download_and_read_xml unreachable_env empty_world) = Inr None
   \<and> files (snd (download_and_read_xml unreachable_env empty_world)) = Map.empty
   \<and> fst (access_csv_with_pandas unreachable_env empty_world) = Inr None
   \<and> files (snd (access_csv_with_pandas unreachable_env empty_world)) = Map.empty"
proof -
  have rq: "requests_get not_found_env url = Inr not_found
      \<and> raise_for_status not_found_env not_found = requests_raise_for_status not_found" for url
    by (simp add: not_found_env_def test_env_def)
  have nf: "get_fails not_found_env url" for url
  proof -
    from failed_get_creates_no_file [of not_found_env empty_world]
    have "requests_get not_found_env url = Inr not_found
        \<and> raise_for_status not_found_env not_found = requests_raise_for_status not_found \<longrightarrow>
      (get_fails not_found_env url \<longleftrightarrow>
         400 \<le> status_code not_found \<and> status_code not_found < 600)"
      by blast
    with rq [of url] show ?thesis by (simp add: not_found_def)
  qed
  have ur: "get_fails unreachable_env url" for url
  proof -
    from failed_get_creates_no_file [of unreachable_env empty_world]
    have "requests_get unreachable_env url = Inl (Exn RequestException ''Connection refused'')
      \<longrightarrow> (get_fails unreachable_env url \<longleftrightarrow>
             is_Exception (Exn RequestException ''Connection refused''))"
      by blast
    then show ?thesis
      by (simp add: unreachable_env_def test_env_def is_Exception_def)
  qed
  from failed_get_creates_no_file [of not_found_env empty_world] nf
  have a: "fst (download_and_read_xml not_found_env empty_world) = Inr None"
    "files (snd (download_and_read_xml not_found_env empty_world)) = Map.empty"
    "fst (access_csv_with_pandas not_found_env empty_world) = Inr None"
    "files (snd (access_csv_with_pandas not_found_env empty_world)) = Map.empty"
    by (simp_all add: empty_world_def)
  from failed_get_creates_no_file [of unreachable_env empty_world] ur
  have b: "fst (download_and_read_xml unreachable_env empty_world) = Inr None"
    "files (snd (download_and_read_xml unreachable_env empty_world)) = Map.empty"
    "fst (access_csv_with_pandas unreachable_env empty_world) = Inr None"
    "files (snd (access_csv_with_pandas unreachable_env empty_world)) = Map.empty"
    by (simp_all add: empty_world_def)
  from a b nf ur show ?thesis
    by (simp add: not_found_def)
qed

section \<open>The handlers\<close>













section \<open>Temporary files and the column preview\<close>

text \<open>
  Claim C6. Whenever \<^verbatim>\<open>download_and_read_xml\<close> or \<^verbatim>\<open>access_csv_with_pandas\<close> reaches its
  normal return (it returns the value of its body, not \<^verbatim>\<open>None\<close>), its temporary file is
  not in the directory afterwards; and \<^verbatim>\<open>access_json_api\<close> leaves the files of the
  directory as they were on every run, so only the XML and the CSV paths create a file.
\<close>

theorem success_removes_temp_file:
  "((\<exists>x. fst (download_and_read_xml env w) = Inr (Some x)) \<longrightarrow>
      files (snd (download_and_read_xml env w)) xml_temp_file = None)
   \<and> ((\<exists>x. fst (access_csv_with_pandas env w) = Inr (Some x)) \<longrightarrow>
      files (snd (access_csv_with_pandas env w)) csv_temp_file = None)
   \<and> files (snd (access_json_api env w)) = files w"
proof (intro conjI impI)
  assume "\<exists>x. fst (download_and_read_xml env w) = Inr (Some x)"
  then obtain x where "fst (download_and_read_xml env w) = Inr (Some x)" ..
  then have "xml_body env w = (Inr x, snd (download_and_read_xml env w))"
    unfolding download_and_read_xml_def by (rule try_except_returns)
  then show "files (snd (download_and_read_xml env w)) xml_temp_file = None"
    by (rule xml_returns_removed)
next
  assume "\<exists>x. fst (access_csv_with_pandas env w) = Inr (Some x)"
  then obtain x where "fst (access_csv_with_pandas env w) = Inr (Some x)" ..
  then have "csv_body env w = (Inr x, snd (access_csv_with_pandas env w))"
    unfolding access_csv_with_pandas_def by (rule try_except_returns)
  then show "files (snd (access_csv_with_pandas env w)) csv_temp_file = None"
    by (rule csv_returns_removed)
next
  show "files (snd (access_json_api env w)) = files w"
    by (rule files_access_json_api)
qed

lemma good_env_csv:
  "requests_get good_env csv_url = Inr (ok_response scenario_csv_text)"
  "raise_for_status good_env (ok_response scenario_csv_text) = None"
  "open_error good_env csv_temp_file = None"
  "pd_read_csv good_env (content (ok_response scenario_csv_text)) = Inr scenario_frame"
  by (simp_all add: good_env_def test_env_def test_read_csv_def requests_raise_for_status_def
      ok_response_def xml_url_def api_url_def csv_url_def)

lemma good_env_csv_rest:
  "to_string good_env (head 3 scenario_frame) = Inr (show_frame (head 3 scenario_frame))"
  "stats_error good_env scenario_frame = None"
  "os_remove_error good_env csv_temp_file = None"
  by (simp_all add: good_env_def test_env_def stats_error_def scenario_frame_def)

text \<open>The theorem at the server of the scenarios, from an empty directory.\<close>

theorem success_removes_temp_file_witness:
  "fst (download_and_read_xml good_env empty_world) =
     Inr (Some [[(''make'', Some ''NISSAN''), (''model'', Some ''LEAF'')]])
   \<and> files (snd (download_and_read_xml good_env empty_world)) xml_temp_file = None
   \<and> fst (access_csv_with_pandas good_env empty_world) = Inr (Some scenario_frame)
   \<and> files (snd (access_csv_with_pandas good_env empty_world)) csv_temp_file = None
   \<and> files (snd (access_json_api good_env empty_world)) = Map.empty"
proof -
  have x: "fst (download_and_read_xml good_env empty_world) =
     Inr (Some [[(''make'', Some ''NISSAN''), (''model'', Some ''LEAF'')]])"
    using xml_success [OF good_env_xml, of empty_world]
    by (simp add: download_and_read_xml_def try_except_def scenario_rows scenario_record)
  have c: "fst (access_csv_with_pandas good_env empty_world) = Inr (Some scenario_frame)"
    using csv_success [OF good_env_csv good_env_csv_rest, of empty_world]
    by (simp add: access_csv_with_pandas_def try_except_def)
  from x c show ?thesis
    using success_removes_temp_file [of good_env empty_world]
    by (simp add: empty_world_def)
qed

text \<open>
  Claim C8. Once the frame is loaded, \<^verbatim>\<open>access_csv_with_pandas\<close> has printed, as its
  fifth line, \<^verbatim>\<open>Columns: \<close> followed by the first \<open>min 5 K\<close> column names joined by a
  comma and a space, followed by an ellipsis, whatever \<open>K\<close> is and whatever happens
  later in the call.
\<close>

theorem csv_columns_ellipsis:
  assumes "requests_get env csv_url = Inr r"
    and "raise_for_status env r = None"
    and "open_error env csv_temp_file = None"
    and "pd_read_csv env (content r) = Inr df"
  shows "(\<exists>rest. console (snd (access_csv_with_pandas env w))
            = console w @ csv_preamble df @ rest)
   \<and> csv_preamble df ! 4 = ''Columns: '' @ str_join '', '' (take 5 (columns df)) @ ''...''
   \<and> length (take 5 (columns df)) = min 5 (length (columns df))"
proof -
  from csv_console_after_load[OF assms, of w] obtain rest where
    "console (snd (csv_body env w)) = console w @ csv_preamble df @ rest" ..
  moreover from try_except_console[of "''Error accessing CSV with pandas: ''" "csv_body env" w]
  obtain rest' where
    "console (snd (access_csv_with_pandas env w)) = console (snd (csv_body env w)) @ rest'"
    by (auto simp: access_csv_with_pandas_def)
  ultimately have "console (snd (access_csv_with_pandas env w))
      = console w @ csv_preamble df @ (rest @ rest')" by simp
  then have "\<exists>rest. console (snd (access_csv_with_pandas env w))
            = console w @ csv_preamble df @ rest" ..
  then show ?thesis by (simp add: csv_preamble_def min.commute)
qed

text \<open>The theorem at the CSV scenario: two columns, both shown, and the ellipsis
  all the same.\<close>

theorem csv_columns_ellipsis_witness:
  "length (columns scenario_frame) = 2
   \<and> (\<exists>rest. console (snd (access_csv_with_pandas good_env empty_world))
          = csv_preamble scenario_frame @ rest)
   \<and> csv_preamble scenario_frame ! 4 = ''Columns: VIN, County...''"
  using csv_columns_ellipsis [OF good_env_csv, of empty_world]
  by (simp add: empty_world_def scenario_frame_def)

end
